theory Spec2Isabelle
  imports Complex_Main "HOL-Library.Sublist"
begin

section \<open>Numbers, strings and thrown values\<close>

text \<open>
  The TypeScript source computes with JavaScript numbers.  Delays, jitter factors and
  random samples are embedded as \<^typ>\<open>real\<close> (exact arithmetic, no rounding);
  timestamps read from \<open>Date.now()\<close>, token counts and per-minute limits are embedded as
  \<^typ>\<open>int\<close>.  A \<open>Math.random()\<close> sample is a parameter \<open>r\<close> of the function that
  draws it; the platform promises \<open>0 \<le> r < 1\<close>, which theorems assume where they need it.
  A string is the list of its UTF-8 bytes; on ASCII text \<open>length\<close> is JavaScript's
  \<open>length\<close>, and \<open>includes\<close> with an ASCII needle agrees on every text.
\<close>

subsection \<open>\<open>String.prototype.includes\<close>\<close>

fun str_includes :: "string \<Rightarrow> string \<Rightarrow> bool" where
  "str_includes [] sub = (sub = [])"
| "str_includes (c # cs) sub = (take (length sub) (c # cs) = sub \<or> str_includes cs sub)"

subsection \<open>Error constants (\<open>constants/error.constants\<close>)\<close>

definition TOO_MANY_REQUESTS :: int where "TOO_MANY_REQUESTS = 429"
definition INTERNAL_SERVER_ERROR :: int where "INTERNAL_SERVER_ERROR = 500"
definition BAD_GATEWAY :: int where "BAD_GATEWAY = 502"
definition SERVICE_UNAVAILABLE :: int where "SERVICE_UNAVAILABLE = 503"
definition GATEWAY_TIMEOUT :: int where "GATEWAY_TIMEOUT = 504"

definition KW_RATE_LIMIT :: string where "KW_RATE_LIMIT = ''rate limit''"
definition KW_TIMEOUT :: string where "KW_TIMEOUT = ''timeout''"
definition KW_TIMED_OUT :: string where "KW_TIMED_OUT = ''timed out''"
definition KW_NETWORK :: string where "KW_NETWORK = ''network''"
definition KW_NETWORK_ERROR :: string where "KW_NETWORK_ERROR = ''network error''"
definition KW_SCHEMA_MISMATCH :: string where
  "KW_SCHEMA_MISMATCH = ''does not match expected schema''"
definition KW_API :: string where "KW_API = ''API''"
definition KW_ECONNREFUSED :: string where "KW_ECONNREFUSED = ''ECONNREFUSED''"
definition KW_ENOTFOUND :: string where "KW_ENOTFOUND = ''ENOTFOUND''"
definition KW_ETIMEDOUT :: string where "KW_ETIMEDOUT = ''ETIMEDOUT''"
definition KW_ECONNRESET :: string where "KW_ECONNRESET = ''ECONNRESET''"

definition STR_BAD_REQUEST :: string where "STR_BAD_REQUEST = ''400''"
definition STR_UNAUTHORIZED :: string where "STR_UNAUTHORIZED = ''401''"
definition STR_FORBIDDEN :: string where "STR_FORBIDDEN = ''403''"
definition STR_NOT_FOUND :: string where "STR_NOT_FOUND = ''404''"
definition STR_TOO_MANY_REQUESTS :: string where "STR_TOO_MANY_REQUESTS = ''429''"
definition STR_INTERNAL_SERVER_ERROR :: string where "STR_INTERNAL_SERVER_ERROR = ''500''"
definition STR_BAD_GATEWAY :: string where "STR_BAD_GATEWAY = ''502''"
definition STR_SERVICE_UNAVAILABLE :: string where "STR_SERVICE_UNAVAILABLE = ''503''"
definition STR_GATEWAY_TIMEOUT :: string where "STR_GATEWAY_TIMEOUT = ''504''"

definition DEFAULT_ERROR_MESSAGE_UNKNOWN :: string where
  "DEFAULT_ERROR_MESSAGE_UNKNOWN = ''An unknown error occurred''"

lemmas error_constants =
  TOO_MANY_REQUESTS_def INTERNAL_SERVER_ERROR_def BAD_GATEWAY_def SERVICE_UNAVAILABLE_def
  GATEWAY_TIMEOUT_def KW_RATE_LIMIT_def KW_TIMEOUT_def KW_TIMED_OUT_def KW_NETWORK_def
  KW_NETWORK_ERROR_def KW_SCHEMA_MISMATCH_def KW_API_def KW_ECONNREFUSED_def
  KW_ENOTFOUND_def KW_ETIMEDOUT_def KW_ECONNRESET_def STR_BAD_REQUEST_def
  STR_UNAUTHORIZED_def STR_FORBIDDEN_def STR_NOT_FOUND_def STR_TOO_MANY_REQUESTS_def
  STR_INTERNAL_SERVER_ERROR_def STR_BAD_GATEWAY_def STR_SERVICE_UNAVAILABLE_def
  STR_GATEWAY_TIMEOUT_def DEFAULT_ERROR_MESSAGE_UNKNOWN_def

subsection \<open>Values caught by \<open>catch (error)\<close>\<close>

text \<open>
  A caught value has static type \<open>unknown\<close>.  The code inspects three things: whether it
  is an \<open>Error\<close> instance (then its \<open>message\<close>), what \<open>String(error)\<close> gives otherwise,
  and, for objects, the own-or-inherited properties \<open>status\<close> and \<open>statusCode\<close>.  A
  property is absent (\<open>None\<close>) or holds a value that is a number or something else.
\<close>

datatype js_value = JNumber int | JNonNumber

datatype thrown =
    ErrorInstance string "js_value option" "js_value option"
  | ObjectValue string "js_value option" "js_value option"
  | PrimitiveValue string

definition js_undefined :: thrown where
  "js_undefined = PrimitiveValue ''undefined''"

section \<open>Delay policy (\<open>utils/delay.utils\<close>)\<close>

definition calculateDelayWithJitter :: "real \<Rightarrow> bool \<Rightarrow> real \<Rightarrow> real \<Rightarrow> real" where
  "calculateDelayWithJitter baseDelay useJitter jitterFactor r =
     (if \<not> useJitter then baseDelay
      else let jitterAmount = baseDelay * jitterFactor;
               randomJitter = (r * 2 - 1) * jitterAmount
           in max 0 (baseDelay + randomJitter))"

definition calculateExponentialBackoff ::
  "nat \<Rightarrow> real \<Rightarrow> real \<Rightarrow> bool \<Rightarrow> real \<Rightarrow> real \<Rightarrow> real" where
  "calculateExponentialBackoff attempt baseDelay maxDelay useJitter jitterFactor r =
     (let exponentialDelay = baseDelay * 2 ^ attempt;
          cappedDelay = min exponentialDelay maxDelay
      in if \<not> useJitter then cappedDelay
         else let jitter = r * jitterFactor * cappedDelay
              in of_int \<lfloor>cappedDelay + jitter\<rfloor>)"

text \<open>The private copy of the jitter formula in the stand-alone \<open>ThrottleManager\<close>.\<close>

definition ThrottleManager_calculateDelay :: "bool \<Rightarrow> real \<Rightarrow> real \<Rightarrow> real \<Rightarrow> real" where
  "ThrottleManager_calculateDelay useJitter jitterFactor baseDelay r =
     (if \<not> useJitter then baseDelay
      else let jitterAmount = baseDelay * jitterFactor;
               randomJitter = (r * 2 - 1) * jitterAmount
           in max 0 (baseDelay + randomJitter))"

section \<open>Retry policy (\<open>managers/retry.manager\<close>)\<close>

record RetryManager =
  enabled :: bool
  maxAttempts :: int
  baseDelay :: real
  maxDelay :: real

definition calculateDelay :: "RetryManager \<Rightarrow> nat \<Rightarrow> real \<Rightarrow> real" where
  "calculateDelay m attempt r =
     (let exponentialDelay = baseDelay m * 2 ^ attempt;
          cappedDelay = min exponentialDelay (maxDelay m);
          jitter = r * 0.25 * cappedDelay
      in of_int \<lfloor>cappedDelay + jitter\<rfloor>)"

definition getErrorMessage :: "thrown \<Rightarrow> string" where
  "getErrorMessage error =
     (case error of
        ErrorInstance message _ _ \<Rightarrow> message
      | ObjectValue str _ _ \<Rightarrow> str
      | PrimitiveValue str \<Rightarrow> str)"

text \<open>\<open>getErrorCode\<close> returns \<open>null\<close> (\<open>None\<close>) or whatever the property holds.\<close>

definition getErrorCode :: "thrown \<Rightarrow> js_value option" where
  "getErrorCode error =
     (case error of
        ErrorInstance _ status statusCode \<Rightarrow>
          (case status of Some v \<Rightarrow> Some v | None \<Rightarrow> statusCode)
      | ObjectValue _ status statusCode \<Rightarrow>
          (case status of Some v \<Rightarrow> Some v | None \<Rightarrow> statusCode)
      | PrimitiveValue _ \<Rightarrow> None)"

definition isRetriableError :: "thrown \<Rightarrow> bool" where
  "isRetriableError error =
     (let errorMessage = getErrorMessage error;
          errorCode = getErrorCode error
      in if errorCode = Some (JNumber TOO_MANY_REQUESTS)
            \<or> str_includes errorMessage KW_RATE_LIMIT
            \<or> str_includes errorMessage STR_TOO_MANY_REQUESTS then True
         else if str_includes errorMessage KW_TIMEOUT \<or> str_includes errorMessage KW_TIMED_OUT
           then True
         else if errorCode = Some (JNumber INTERNAL_SERVER_ERROR)
            \<or> errorCode = Some (JNumber BAD_GATEWAY)
            \<or> errorCode = Some (JNumber SERVICE_UNAVAILABLE)
            \<or> errorCode = Some (JNumber GATEWAY_TIMEOUT) then True
         else if str_includes errorMessage STR_INTERNAL_SERVER_ERROR
            \<or> str_includes errorMessage STR_BAD_GATEWAY
            \<or> str_includes errorMessage STR_SERVICE_UNAVAILABLE
            \<or> str_includes errorMessage STR_GATEWAY_TIMEOUT then True
         else if str_includes errorMessage KW_ECONNREFUSED
            \<or> str_includes errorMessage KW_ENOTFOUND
            \<or> str_includes errorMessage KW_ETIMEDOUT
            \<or> str_includes errorMessage KW_ECONNRESET
            \<or> str_includes errorMessage KW_NETWORK_ERROR then True
         else False)"

subsection \<open>The retriable kinds as the specification words them\<close>

text \<open>
  The specification's decision table, stated on the thrown value itself and not through
  the code's helpers.  The message of an error is the \<open>message\<close> of an \<open>Error\<close> instance
  and the string form of any other value; its status is the number held by \<open>status\<close>, or
  by \<open>statusCode\<close> when there is no \<open>status\<close>; a message contains a marker when the marker
  occurs in it as a contiguous piece.
\<close>

fun message_of :: "thrown \<Rightarrow> string" where
  "message_of (ErrorInstance msg _ _) = msg"
| "message_of (ObjectValue str _ _) = str"
| "message_of (PrimitiveValue str) = str"

fun status_of :: "thrown \<Rightarrow> int option" where
  "status_of (ErrorInstance _ (Some (JNumber n)) _) = Some n"
| "status_of (ErrorInstance _ (Some JNonNumber) _) = None"
| "status_of (ErrorInstance _ None (Some (JNumber n))) = Some n"
| "status_of (ErrorInstance _ None _) = None"
| "status_of (ObjectValue _ (Some (JNumber n)) _) = Some n"
| "status_of (ObjectValue _ (Some JNonNumber) _) = None"
| "status_of (ObjectValue _ None (Some (JNumber n))) = Some n"
| "status_of (ObjectValue _ None _) = None"
| "status_of (PrimitiveValue _) = None"

definition has_status :: "int \<Rightarrow> thrown \<Rightarrow> bool" where
  "has_status n e = (status_of e = Some n)"

definition has_marker :: "string \<Rightarrow> thrown \<Rightarrow> bool" where
  "has_marker k e = (\<exists>before after. message_of e = before @ k @ after)"

definition rate_limit_rejection :: "thrown \<Rightarrow> bool" where
  "rate_limit_rejection e =
     (has_status 429 e \<or> has_marker ''rate limit'' e \<or> has_marker ''429'' e)"

definition timeout_failure :: "thrown \<Rightarrow> bool" where
  "timeout_failure e = (has_marker ''timeout'' e \<or> has_marker ''timed out'' e)"

definition upstream_5xx :: "thrown \<Rightarrow> bool" where
  "upstream_5xx e =
     (has_status 500 e \<or> has_status 502 e \<or> has_status 503 e \<or> has_status 504 e
      \<or> has_marker ''500'' e \<or> has_marker ''502'' e \<or> has_marker ''503'' e
      \<or> has_marker ''504'' e)"

definition network_failure :: "thrown \<Rightarrow> bool" where
  "network_failure e =
     (has_marker ''ECONNREFUSED'' e \<or> has_marker ''ENOTFOUND'' e \<or> has_marker ''ETIMEDOUT'' e
      \<or> has_marker ''ECONNRESET'' e \<or> has_marker ''network error'' e)"

definition retriable_kind :: "thrown \<Rightarrow> bool" where
  "retriable_kind e =
     (rate_limit_rejection e \<or> timeout_failure e \<or> upstream_5xx e \<or> network_failure e)"

section \<open>The environment: clock, timers, random numbers, upstream service\<close>

text \<open>
  The managers read the wall clock, sleep on timers and draw random numbers; the client
  calls the remote completion service.  The environment is an explicit value threaded
  through every operation:
  \<^item> \<open>clock\<close> is what \<open>Date.now()\<close> returns, in milliseconds;
  \<^item> \<open>rnd\<close> is the stream of \<open>Math.random()\<close> samples and \<open>rnd_next\<close> the number drawn;
  \<^item> \<open>sleeps\<close> logs the argument of every \<open>sleep(ms)\<close>, oldest first;
  \<^item> \<open>calls\<close> counts the invocations of the remote operation, and \<open>upstream\<close> (for plain
    calls) and \<open>upstream_stream\<close> (for streamed calls) script its behaviour: the \<open>i\<close>-th
    invocation takes \<open>latency\<close> milliseconds and then throws or returns.
  Synchronous code takes no time.  A timer fires exactly when due; its duration follows
  the platform's rule for \<open>setTimeout\<close> (truncated to an integer, and 1 ms when below 1 or
  above \<open>2^31 - 1\<close>).
\<close>

record completion =
  message_content :: string
  completion_model :: string
  finish_reason :: "string option"
  usage_tokens :: "(int \<times> int \<times> int) option"

datatype reply = Reply nat "thrown + completion"

fun latency :: "reply \<Rightarrow> nat" where
  "latency (Reply l _) = l"

fun outcome :: "reply \<Rightarrow> thrown + completion" where
  "outcome (Reply _ out) = out"

text \<open>
  A streamed call either fails at once or yields chunks and then ends, normally or by
  throwing; \<open>latency\<close> is then the time until the stream has ended.
\<close>

record chunk =
  delta :: string
  chunk_finish_reason :: "string option"
  chunk_model :: string

datatype stream_reply = StreamReply nat "thrown + (chunk list \<times> thrown option)"

fun stream_latency :: "stream_reply \<Rightarrow> nat" where
  "stream_latency (StreamReply l _) = l"

fun stream_outcome :: "stream_reply \<Rightarrow> thrown + (chunk list \<times> thrown option)" where
  "stream_outcome (StreamReply _ out) = out"

record world =
  clock :: int
  rnd :: "nat \<Rightarrow> real"
  rnd_next :: nat
  sleeps :: "real list"
  calls :: nat
  upstream :: "nat \<Rightarrow> reply"
  upstream_stream :: "nat \<Rightarrow> stream_reply"

definition Math_random :: "'a world_scheme \<Rightarrow> real \<times> 'a world_scheme" where
  "Math_random w = (rnd w (rnd_next w), w\<lparr>rnd_next := Suc (rnd_next w)\<rparr>)"

definition timer_delay :: "real \<Rightarrow> int" where
  "timer_delay ms = (if ms < 1 \<or> 2147483647 < ms then 1 else \<lfloor>ms\<rfloor>)"

definition sleep :: "real \<Rightarrow> 'a world_scheme \<Rightarrow> 'a world_scheme" where
  "sleep ms w = w\<lparr>clock := clock w + timer_delay ms, sleeps := sleeps w @ [ms]\<rparr>"

section \<open>Throttle gate (\<open>managers/throttle.manager\<close>)\<close>

record ThrottleManager =
  requestDelay :: "real option"
  useJitter :: bool
  jitterFactor :: real
  lastRequestTime :: int

text \<open>\<open>!this.requestDelay\<close>: the delay is \<open>undefined\<close> or the falsy number \<open>0\<close>.\<close>

definition requestDelay_falsy :: "ThrottleManager \<Rightarrow> bool" where
  "requestDelay_falsy t = (case requestDelay t of None \<Rightarrow> True | Some d \<Rightarrow> d = 0)"

definition throttle ::
  "ThrottleManager \<Rightarrow> 'a world_scheme \<Rightarrow> ThrottleManager \<times> 'a world_scheme" where
  "throttle t w =
     (if requestDelay_falsy t then (t, w)
      else
        let now = clock w;
            timeSinceLastRequest = now - lastRequestTime t;
            w1 = (if real_of_int timeSinceLastRequest < the (requestDelay t) then
                    let remainingDelay = the (requestDelay t) - real_of_int timeSinceLastRequest;
                        rw = (if useJitter t then Math_random w else (0, w));
                        actualDelay = calculateDelayWithJitter remainingDelay (useJitter t)
                                        (jitterFactor t) (fst rw)
                    in sleep actualDelay (snd rw)
                  else w)
        in (t\<lparr>lastRequestTime := clock w1\<rparr>, w1))"

section \<open>Rate limit window (\<open>managers/rate-limit.manager\<close>)\<close>

record RateLimitManager =
  requestsPerMinute :: "int option"
  tokensPerMinute :: "int option"
  requestTimestamps :: "int list"
  tokenTimestamps :: "(int \<times> int) list"

definition RATE_LIMIT_WINDOW_MS :: int where "RATE_LIMIT_WINDOW_MS = 60000"
definition THROTTLE_CHECK_INTERVAL_MS :: real where "THROTTLE_CHECK_INTERVAL_MS = 1000"

definition isRequestRateLimitExceeded :: "RateLimitManager \<Rightarrow> bool" where
  "isRequestRateLimitExceeded rl =
     (case requestsPerMinute rl of
        None \<Rightarrow> False
      | Some rpm \<Rightarrow> int (length (requestTimestamps rl)) \<ge> rpm)"

definition isTokenRateLimitExceeded :: "RateLimitManager \<Rightarrow> int \<Rightarrow> bool" where
  "isTokenRateLimitExceeded rl estimatedTokens =
     (case tokensPerMinute rl of
        None \<Rightarrow> False
      | Some tpm \<Rightarrow>
          if estimatedTokens = 0 then False
          else let tokensUsedInLastMinute = foldl (\<lambda>sum t. sum + snd t) 0 (tokenTimestamps rl)
               in tokensUsedInLastMinute + estimatedTokens > tpm)"

text \<open>\<open>canMakeRequest\<close> reads the clock once (\<open>now\<close>), prunes both sequences, then checks.\<close>

definition canMakeRequest :: "int \<Rightarrow> int \<Rightarrow> RateLimitManager \<Rightarrow> bool \<times> RateLimitManager" where
  "canMakeRequest now estimatedTokens rl =
     (let oneMinuteAgo = now - RATE_LIMIT_WINDOW_MS;
          rl' = rl\<lparr>requestTimestamps := filter (\<lambda>ts. ts > oneMinuteAgo) (requestTimestamps rl),
                   tokenTimestamps := filter (\<lambda>t. fst t > oneMinuteAgo) (tokenTimestamps rl)\<rparr>
      in if isRequestRateLimitExceeded rl' then (False, rl')
         else if isTokenRateLimitExceeded rl' estimatedTokens then (False, rl')
         else (True, rl'))"

text \<open>The argument of \<open>recordRequest\<close> may be \<open>undefined\<close>; the default parameter makes it 0.\<close>

definition recordRequest :: "int \<Rightarrow> int option \<Rightarrow> RateLimitManager \<Rightarrow> RateLimitManager" where
  "recordRequest now tokensUsedArg rl =
     (let tokensUsed = (case tokensUsedArg of None \<Rightarrow> 0 | Some n \<Rightarrow> n);
          rl1 = rl\<lparr>requestTimestamps := requestTimestamps rl @ [now]\<rparr>
      in if tokensUsed > 0
         then rl1\<lparr>tokenTimestamps := tokenTimestamps rl1 @ [(now, tokensUsed)]\<rparr>
         else rl1)"

text \<open>
  The polling loop may run forever, so it takes fuel: the number of admission checks it
  may make.  \<open>None\<close> means that the fuel did not suffice.
\<close>

fun waitForRateLimit ::
  "nat \<Rightarrow> int \<Rightarrow> RateLimitManager \<Rightarrow> 'a world_scheme
     \<Rightarrow> (RateLimitManager \<times> 'a world_scheme) option" where
  "waitForRateLimit 0 estimatedTokens rl w = None"
| "waitForRateLimit (Suc fuel) estimatedTokens rl w =
     (let res = canMakeRequest (clock w) estimatedTokens rl
      in if fst res then Some (snd res, w)
         else waitForRateLimit fuel estimatedTokens (snd res)
                (sleep THROTTLE_CHECK_INTERVAL_MS w))"

section \<open>Retry engine (\<open>managers/retry.manager\<close>)\<close>

text \<open>
  The attempt function and the error handler are caller-supplied and may themselves
  throw; an attempt may also never return (\<open>None\<close>).  \<open>retry_loop\<close> is the \<open>for\<close> loop
  of \<open>executeWithRetry\<close> from loop variable \<open>attempt\<close> on, with the current \<open>lastError\<close>.
\<close>

function retry_loop ::
  "RetryManager \<Rightarrow> ('a world_scheme \<Rightarrow> ((thrown + 'r) \<times> 'a world_scheme) option)
     \<Rightarrow> (thrown \<Rightarrow> thrown + 'r) \<Rightarrow> int \<Rightarrow> thrown \<Rightarrow> 'a world_scheme
     \<Rightarrow> ((thrown + 'r) \<times> 'a world_scheme) option" where
  "retry_loop m fn onError attempt lastError w =
     (if attempt < maxAttempts m then
        (case fn w of
           None \<Rightarrow> None
         | Some res \<Rightarrow>
            (case fst res of
               Inr v \<Rightarrow> Some (Inr v, snd res)
             | Inl err \<Rightarrow>
                 if \<not> isRetriableError err then Some (onError err, snd res)
                 else if attempt < maxAttempts m - 1 then
                   let rw = Math_random (snd res);
                       delay = calculateDelay m (nat attempt) (fst rw)
                   in retry_loop m fn onError (attempt + 1) err (sleep delay (snd rw))
                 else retry_loop m fn onError (attempt + 1) err (snd res)))
      else Some (onError lastError, w))"
  by pat_completeness auto
termination
  by (relation "measure (\<lambda>(m, fn, onError, attempt, lastError, w). nat (maxAttempts m - attempt))")
    auto

declare retry_loop.simps [simp del]

definition executeWithRetry ::
  "RetryManager \<Rightarrow> ('a world_scheme \<Rightarrow> ((thrown + 'r) \<times> 'a world_scheme) option)
     \<Rightarrow> (thrown \<Rightarrow> thrown + 'r) \<Rightarrow> 'a world_scheme
     \<Rightarrow> ((thrown + 'r) \<times> 'a world_scheme) option" where
  "executeWithRetry m fn onError w =
     (if \<not> enabled m then
        (case fn w of
           None \<Rightarrow> None
         | Some res \<Rightarrow>
            (case fst res of
               Inr v \<Rightarrow> Some (Inr v, snd res)
             | Inl err \<Rightarrow> Some (onError err, snd res)))
      else retry_loop m fn onError 0 js_undefined w)"

section \<open>Orchestrator (\<open>openai-client.service\<close>)\<close>

datatype PromptResponseStatus =
    SUCCESS | VALIDATION_ERROR | API_ERROR | RATE_LIMIT_ERROR | TIMEOUT_ERROR
  | NETWORK_ERROR | UNKNOWN_ERROR

text \<open>
  Of a \<open>PromptResponse\<close> the fields \<open>toolCalls\<close>, \<open>cost\<close>, \<open>raw\<close> and \<open>input\<close> are left out,
  and with \<open>cost\<close> the price lookup: no control flow of the pipeline depends on them.
  Building the messages and the request parameters is pure data shaping and is left out
  as well.  An output schema is the external validator it stands for: applied to the raw
  content it reports a schema violation with its details, the validated value, or that
  the content could not be parsed as JSON (any other failure), in which case the raw
  content is returned.
\<close>

record PromptResponse =
  status :: PromptResponseStatus
  error :: "string option"
  content :: string
  structuredOutput :: "string option"
  usage :: "(int \<times> int \<times> int) option"
  model :: string
  finishReason :: "string option"

datatype schema_result = NotJson | ZodError string | Validated string

record PromptInput =
  input :: string
  systemMessage :: "string option"
  maxTokens :: "int option"
  messages :: "string option list"
  outputSchema :: "(string \<Rightarrow> schema_result) option"

record client = world +
  throttleManager :: ThrottleManager
  rateLimitManager :: RateLimitManager
  retryManager :: RetryManager
  defaultSystemMessage :: "string option"
  defaultMaxTokens :: "int option"

definition CHARS_PER_TOKEN :: int where "CHARS_PER_TOKEN = 4"
definition DEFAULT_ESTIMATED_MAX_TOKENS :: int where "DEFAULT_ESTIMATED_MAX_TOKENS = 1000"

definition estimateTokens :: "client \<Rightarrow> PromptInput \<Rightarrow> int" where
  "estimateTokens c inp =
     (let sysMsg = (case systemMessage inp of Some s \<Rightarrow> Some s | None \<Rightarrow> defaultSystemMessage c);
          chars0 = (case sysMsg of Some s \<Rightarrow> (if s \<noteq> [] then int (length s) else 0) | None \<Rightarrow> 0);
          chars1 = chars0 + int (length (input inp));
          totalChars = foldl (\<lambda>n msg. case msg of Some txt \<Rightarrow> n + int (length txt) | None \<Rightarrow> n)
                         chars1 (messages inp);
          maxT = (case maxTokens inp of
                    Some n \<Rightarrow> n
                  | None \<Rightarrow> (case defaultMaxTokens c of
                               Some n \<Rightarrow> n
                             | None \<Rightarrow> DEFAULT_ESTIMATED_MAX_TOKENS))
      in \<lceil>real_of_int totalChars / real_of_int CHARS_PER_TOKEN\<rceil> + maxT)"

definition parseAndValidateOutput ::
  "string \<Rightarrow> (string \<Rightarrow> schema_result) option \<Rightarrow> thrown + (string \<times> string option)" where
  "parseAndValidateOutput rawContent schema =
     (case schema of
        None \<Rightarrow> Inr (rawContent, None)
      | Some validate \<Rightarrow>
          if rawContent = [] then Inr (rawContent, None)
          else (case validate rawContent of
                  Validated v \<Rightarrow> Inr (v, Some v)
                | ZodError details \<Rightarrow>
                    Inl (ErrorInstance
                          (''OpenAI response does not match expected schema: '' @ details)
                          None None)
                | NotJson \<Rightarrow> Inr (rawContent, None)))"

definition buildPromptResponse :: "completion \<Rightarrow> string \<Rightarrow> string option \<Rightarrow> PromptResponse" where
  "buildPromptResponse response cont so =
     \<lparr>status = SUCCESS, error = None, content = cont, structuredOutput = so,
      usage = usage_tokens response, model = completion_model response,
      finishReason = finish_reason response\<rparr>"

definition buildErrorResponse :: "thrown \<Rightarrow> PromptResponse" where
  "buildErrorResponse err =
     (let st_msg =
        (case err of
           ErrorInstance errorMessage _ _ \<Rightarrow>
             (if str_includes errorMessage KW_SCHEMA_MISMATCH then VALIDATION_ERROR
              else if str_includes errorMessage KW_RATE_LIMIT
                   \<or> str_includes errorMessage STR_TOO_MANY_REQUESTS then RATE_LIMIT_ERROR
              else if str_includes errorMessage KW_TIMEOUT
                   \<or> str_includes errorMessage KW_TIMED_OUT then TIMEOUT_ERROR
              else if str_includes errorMessage KW_NETWORK
                   \<or> str_includes errorMessage KW_ECONNREFUSED
                   \<or> str_includes errorMessage KW_ENOTFOUND then NETWORK_ERROR
              else if str_includes errorMessage KW_API
                   \<or> str_includes errorMessage STR_BAD_REQUEST
                   \<or> str_includes errorMessage STR_UNAUTHORIZED
                   \<or> str_includes errorMessage STR_FORBIDDEN
                   \<or> str_includes errorMessage STR_INTERNAL_SERVER_ERROR then API_ERROR
              else UNKNOWN_ERROR,
              errorMessage)
         | _ \<Rightarrow> (UNKNOWN_ERROR, DEFAULT_ERROR_MESSAGE_UNKNOWN))
      in \<lparr>status = fst st_msg, error = Some (snd st_msg), content = [],
          structuredOutput = None, usage = None, model = [], finishReason = None\<rparr>)"

text \<open>
  \<open>executeWithRateLimiting\<close>: throttle, wait for admission, record the estimate, run the
  call.  \<open>fuel\<close> bounds the admission checks of the wait.
\<close>

definition executeWithRateLimiting ::
  "nat \<Rightarrow> (client \<Rightarrow> (thrown + 'r) \<times> client) \<Rightarrow> int \<Rightarrow> client
     \<Rightarrow> ((thrown + 'r) \<times> client) option" where
  "executeWithRateLimiting fuel fn estimatedTokens c =
     (let tw = throttle (throttleManager c) c;
          c1 = (snd tw)\<lparr>throttleManager := fst tw\<rparr>
      in case waitForRateLimit fuel estimatedTokens (rateLimitManager c1) c1 of
           None \<Rightarrow> None
         | Some rw \<Rightarrow>
             let c2 = (snd rw)\<lparr>rateLimitManager :=
                        recordRequest (clock (snd rw)) (Some estimatedTokens) (fst rw)\<rparr>
             in Some (fn c2))"

text \<open>The remote call of \<open>prompt\<close> and what follows it inside the rate-limited section.\<close>

definition prompt_request :: "PromptInput \<Rightarrow> client \<Rightarrow> (thrown + PromptResponse) \<times> client" where
  "prompt_request inp c =
     (let rep = upstream c (calls c);
          c1 = c\<lparr>clock := clock c + int (latency rep), calls := Suc (calls c)\<rparr>
      in case outcome rep of
           Inl err \<Rightarrow> (Inl err, c1)
         | Inr response \<Rightarrow>
             let c2 = c1\<lparr>rateLimitManager :=
                        recordRequest (clock c1)
                          (case usage_tokens response of
                             None \<Rightarrow> None
                           | Some u \<Rightarrow> Some (snd (snd u)))
                          (rateLimitManager c1)\<rparr>
             in (case parseAndValidateOutput (message_content response) (outputSchema inp) of
                   Inl err \<Rightarrow> (Inl err, c2)
                 | Inr parsed \<Rightarrow>
                     (Inr (buildPromptResponse response (fst parsed) (snd parsed)), c2)))"

text \<open>
  The \<open>try\<close>/\<open>catch\<close> of the attempt function: a retriable error is thrown on to the
  retry engine, any other becomes an error response.
\<close>

definition attempt_guard ::
  "((thrown + PromptResponse) \<times> client) option \<Rightarrow> ((thrown + PromptResponse) \<times> client) option" where
  "attempt_guard res =
     (case res of
        None \<Rightarrow> None
      | Some rc \<Rightarrow>
          (case fst rc of
             Inr v \<Rightarrow> Some (Inr v, snd rc)
           | Inl err \<Rightarrow>
               if isRetriableError err then Some (Inl err, snd rc)
               else Some (Inr (buildErrorResponse err), snd rc)))"

definition prompt :: "nat \<Rightarrow> PromptInput \<Rightarrow> client \<Rightarrow> ((thrown + PromptResponse) \<times> client) option" where
  "prompt fuel inp c =
     executeWithRetry (retryManager c)
       (\<lambda>c'. attempt_guard
                (executeWithRateLimiting fuel (prompt_request inp) (estimateTokens c' inp) c'))
       (\<lambda>err. Inr (buildErrorResponse err))
       c"

text \<open>
  \<open>processStream\<close> folds the chunks into the accumulated content, the last finish reason
  and the last model name; the caller's \<open>onChunk\<close> may throw on a fragment.
\<close>

fun processStream ::
  "chunk list \<Rightarrow> (string \<Rightarrow> thrown option) \<Rightarrow> string \<times> string option \<times> string
     \<Rightarrow> thrown + (string \<times> string option \<times> string)" where
  "processStream [] onChunk acc = Inr acc"
| "processStream (ch # chs) onChunk acc =
     (case (if delta ch \<noteq> [] then onChunk (delta ch) else None) of
        Some err \<Rightarrow> Inl err
      | None \<Rightarrow>
          processStream chs onChunk
            (if delta ch \<noteq> [] then fst acc @ delta ch else fst acc,
             (case chunk_finish_reason ch of
                Some f \<Rightarrow> if f \<noteq> [] then Some f else fst (snd acc)
              | None \<Rightarrow> fst (snd acc)),
             if chunk_model ch \<noteq> [] then chunk_model ch else snd (snd acc)))"

definition stream_request ::
  "PromptInput \<Rightarrow> (string \<Rightarrow> thrown option) \<Rightarrow> client \<Rightarrow> (thrown + PromptResponse) \<times> client" where
  "stream_request inp onChunk c =
     (let rep = upstream_stream c (calls c);
          c1 = c\<lparr>clock := clock c + int (stream_latency rep), calls := Suc (calls c)\<rparr>
      in case stream_outcome rep of
           Inl err \<Rightarrow> (Inl err, c1)
         | Inr str \<Rightarrow>
            (case processStream (fst str) onChunk ([], None, []) of
               Inl err \<Rightarrow> (Inl err, c1)
             | Inr acc \<Rightarrow>
                (case snd str of
                   Some err \<Rightarrow> (Inl err, c1)
                 | None \<Rightarrow>
                    let c2 = c1\<lparr>rateLimitManager :=
                               recordRequest (clock c1) (Some (estimateTokens c1 inp))
                                 (rateLimitManager c1)\<rparr>
                    in (case parseAndValidateOutput (fst acc) (outputSchema inp) of
                          Inl err \<Rightarrow> (Inl err, c2)
                        | Inr parsed \<Rightarrow>
                            (Inr \<lparr>status = SUCCESS, error = None, content = fst parsed,
                                  structuredOutput = snd parsed, usage = None,
                                  model = snd (snd acc), finishReason = fst (snd acc)\<rparr>,
                             c2)))))"

definition promptStream ::
  "nat \<Rightarrow> PromptInput \<Rightarrow> (string \<Rightarrow> thrown option) \<Rightarrow> client
     \<Rightarrow> ((thrown + PromptResponse) \<times> client) option" where
  "promptStream fuel inp onChunk c =
     executeWithRetry (retryManager c)
       (\<lambda>c'. attempt_guard
                (executeWithRateLimiting fuel (stream_request inp onChunk)
                   (estimateTokens c' inp) c'))
       (\<lambda>err. Inr (buildErrorResponse err))
       c"

section \<open>Configuration validation (\<open>validators/config.validator\<close>)\<close>

text \<open>A validator either throws an \<open>Error\<close> (left, with its message) or returns the settings.\<close>

definition validateRetrySettings ::
  "bool option \<Rightarrow> int option \<Rightarrow> real option \<Rightarrow> real option \<Rightarrow> string + RetryManager" where
  "validateRetrySettings enableRetry maxRetryAttempts baseRetryDelay maxRetryDelay =
     (let en = (case enableRetry of Some b \<Rightarrow> b | None \<Rightarrow> True);
          ma = (case maxRetryAttempts of Some n \<Rightarrow> n | None \<Rightarrow> 3);
          bd = (case baseRetryDelay of Some d \<Rightarrow> d | None \<Rightarrow> 1000);
          md = (case maxRetryDelay of Some d \<Rightarrow> d | None \<Rightarrow> 60000)
      in if ma < 1 \<or> ma > 10 then Inl ''maxRetryAttempts must be between 1 and 10''
         else if bd < 100 \<or> bd > 10000
           then Inl ''baseRetryDelay must be between 100ms and 10000ms''
         else if md < bd
           then Inl ''maxRetryDelay must be greater than or equal to baseRetryDelay''
         else Inr \<lparr>enabled = en, maxAttempts = ma, baseDelay = bd, maxDelay = md\<rparr>)"

definition validateThrottleSettings ::
  "real option \<Rightarrow> bool option \<Rightarrow> real option \<Rightarrow> string + (real option \<times> bool \<times> real)" where
  "validateThrottleSettings requestDelayArg useJitterArg jitterFactorArg =
     (if (case requestDelayArg of None \<Rightarrow> False | Some d \<Rightarrow> d < 0)
      then Inl ''requestDelay must be non-negative (at least 0ms)''
      else
        let validatedUseJitter = (case useJitterArg of Some b \<Rightarrow> b | None \<Rightarrow> True);
            validatedJitterFactor = (case jitterFactorArg of Some f \<Rightarrow> f | None \<Rightarrow> 0.3)
        in if validatedJitterFactor < 0 \<or> validatedJitterFactor > 1
           then Inl ''jitterFactor must be between 0 and 1''
           else Inr (requestDelayArg, validatedUseJitter, validatedJitterFactor))"

definition validateRateLimits ::
  "(int option \<times> int option) option \<Rightarrow> string + (int option \<times> int option)" where
  "validateRateLimits rateLimit =
     (case rateLimit of
        None \<Rightarrow> Inr (None, None)
      | Some (rpm, tpm) \<Rightarrow>
          if (case rpm of None \<Rightarrow> False | Some n \<Rightarrow> n < 1)
            then Inl ''requestsPerMinute must be at least 1''
          else if (case tpm of None \<Rightarrow> False | Some n \<Rightarrow> n < 1)
            then Inl ''tokensPerMinute must be at least 1''
          else Inr (rpm, tpm))"

text \<open>The managers as the client's constructor creates them from validated settings.\<close>

definition new_ThrottleManager :: "real option \<times> bool \<times> real \<Rightarrow> ThrottleManager" where
  "new_ThrottleManager settings =
     \<lparr>requestDelay = fst settings, useJitter = fst (snd settings),
      jitterFactor = snd (snd settings), lastRequestTime = 0\<rparr>"

definition new_RateLimitManager :: "int option \<times> int option \<Rightarrow> RateLimitManager" where
  "new_RateLimitManager limits =
     \<lparr>requestsPerMinute = fst limits, tokensPerMinute = snd limits,
      requestTimestamps = [], tokenTimestamps = []\<rparr>"

text \<open>Admission checks made one after the other at the given clock readings.\<close>

fun repeated_checks :: "int \<Rightarrow> int list \<Rightarrow> RateLimitManager \<Rightarrow> bool list" where
  "repeated_checks estimatedTokens [] rl = []"
| "repeated_checks estimatedTokens (now # nows) rl =
     (let res = canMakeRequest now estimatedTokens rl
      in fst res # repeated_checks estimatedTokens nows (snd res))"

section \<open>Client states on which a request can be served\<close>

text \<open>
  \<open>client_ready\<close>: no recorded timestamp lies in the future, the limits are as validation
  leaves them (a request limit of at least 1, at least one retry attempt), and the
  request's token estimate fits the token limit at all.  A request whose estimate exceeds
  \<open>tokensPerMinute\<close> is never admitted: the polling loop then runs forever.
\<close>

definition client_ready :: "PromptInput \<Rightarrow> client \<Rightarrow> bool" where
  "client_ready inp c =
     (list_all (\<lambda>ts. ts \<le> clock c) (requestTimestamps (rateLimitManager c))
      \<and> list_all (\<lambda>t. fst t \<le> clock c) (tokenTimestamps (rateLimitManager c))
      \<and> (case requestsPerMinute (rateLimitManager c) of None \<Rightarrow> True | Some n \<Rightarrow> 1 \<le> n)
      \<and> (case tokensPerMinute (rateLimitManager c) of
            None \<Rightarrow> True
          | Some n \<Rightarrow> estimateTokens c inp \<le> n)
      \<and> 1 \<le> maxAttempts (retryManager c))"

text \<open>
  \<open>advances c c'\<close>: \<open>c'\<close> is a later state of the same client as \<open>c\<close>.  Time has not
  gone back, every recorded timestamp is an old one or not in the future, and the
  configuration and the scripted environment are the same.
\<close>

definition advances :: "client \<Rightarrow> client \<Rightarrow> bool" where
  "advances c c' =
     (clock c \<le> clock c'
      \<and> list_all (\<lambda>ts. ts \<in> set (requestTimestamps (rateLimitManager c)) \<or> ts \<le> clock c')
           (requestTimestamps (rateLimitManager c'))
      \<and> list_all (\<lambda>t. t \<in> set (tokenTimestamps (rateLimitManager c)) \<or> fst t \<le> clock c')
           (tokenTimestamps (rateLimitManager c'))
      \<and> requestsPerMinute (rateLimitManager c') = requestsPerMinute (rateLimitManager c)
      \<and> tokensPerMinute (rateLimitManager c') = tokensPerMinute (rateLimitManager c)
      \<and> retryManager c' = retryManager c
      \<and> defaultSystemMessage c' = defaultSystemMessage c
      \<and> defaultMaxTokens c' = defaultMaxTokens c
      \<and> upstream c' = upstream c
      \<and> upstream_stream c' = upstream_stream c)"

text \<open>The statuses of the error taxonomy, and the message an error response carries.\<close>

definition is_error_status :: "PromptResponseStatus \<Rightarrow> bool" where
  "is_error_status st =
     (st = VALIDATION_ERROR \<or> st = RATE_LIMIT_ERROR \<or> st = TIMEOUT_ERROR
      \<or> st = NETWORK_ERROR \<or> st = API_ERROR \<or> st = UNKNOWN_ERROR)"

definition error_text :: "thrown \<Rightarrow> string" where
  "error_text err =
     (case err of
        ErrorInstance errorMessage _ _ \<Rightarrow> errorMessage
      | _ \<Rightarrow> ''An unknown error occurred'')"

section \<open>What one attempt makes of a reply\<close>

text \<open>
  The contract of one attempt, read off the remote service's reply alone.  A plain call
  fails with the error the remote call threw, or with the schema mismatch of the returned
  content; otherwise it yields the success response.  A streamed call fails with the
  error of the remote call, with what \<open>onChunk\<close> threw on a fragment, with the error that
  ended the stream, or with the schema mismatch of the collected content; otherwise it
  yields the success response, which carries no usage.
\<close>

definition call_outcome :: "PromptInput \<Rightarrow> reply \<Rightarrow> thrown + PromptResponse" where
  "call_outcome inp rep =
     (case outcome rep of
        Inl e \<Rightarrow> Inl e
      | Inr resp \<Rightarrow>
          (case parseAndValidateOutput (message_content resp) (outputSchema inp) of
             Inl e \<Rightarrow> Inl e
           | Inr parsed \<Rightarrow>
               Inr \<lparr>status = SUCCESS, error = None, content = fst parsed,
                    structuredOutput = snd parsed, usage = usage_tokens resp,
                    model = completion_model resp, finishReason = finish_reason resp\<rparr>))"

definition stream_call_outcome ::
  "PromptInput \<Rightarrow> (string \<Rightarrow> thrown option) \<Rightarrow> stream_reply \<Rightarrow> thrown + PromptResponse" where
  "stream_call_outcome inp onChunk rep =
     (case stream_outcome rep of
        Inl e \<Rightarrow> Inl e
      | Inr str \<Rightarrow>
          (case processStream (fst str) onChunk ([], None, []) of
             Inl e \<Rightarrow> Inl e
           | Inr acc \<Rightarrow>
               (case snd str of
                  Some e \<Rightarrow> Inl e
                | None \<Rightarrow>
                    (case parseAndValidateOutput (fst acc) (outputSchema inp) of
                       Inl e \<Rightarrow> Inl e
                     | Inr parsed \<Rightarrow>
                         Inr \<lparr>status = SUCCESS, error = None, content = fst parsed,
                              structuredOutput = snd parsed, usage = None,
                              model = snd (snd acc), finishReason = fst (snd acc)\<rparr>))))"

section \<open>Construction of a client\<close>

text \<open>
  The remaining validators of \<open>ConfigValidator\<close>.  \<open>validateModel\<close> accepts every value of
  the model enumeration, so the model is represented by what the constructor reads of it:
  the context window that the registry lists for it.  JavaScript's \<open>trim\<close> removes white
  space and line terminators; \<open>js_blank\<close> says that a string consists of nothing else.
\<close>

definition digits :: string where "digits = ''0123456789''"

function dec :: "nat \<Rightarrow> string" where
  "dec n = (if n < 10 then [digits ! n] else dec (n div 10) @ [digits ! (n mod 10)])"
  by pat_completeness auto
termination
  by (relation "measure id") auto

declare dec.simps [simp del]

definition show_int :: "int \<Rightarrow> string" where
  "show_int i = (if i < 0 then ''-'' @ dec (nat (- i)) else dec (nat i))"

definition ws1 :: "char \<Rightarrow> bool" where
  "ws1 a = (of_char a \<in> {0x09, 0x0A, 0x0B, 0x0C, 0x0D, 0x20 :: nat})"

definition ws2 :: "char \<Rightarrow> char \<Rightarrow> bool" where
  "ws2 a b = (of_char a = (0xC2 :: nat) \<and> of_char b = (0xA0 :: nat))"

definition ws3 :: "char \<Rightarrow> char \<Rightarrow> char \<Rightarrow> bool" where
  "ws3 a b c =
     (let x = (of_char a :: nat); y = (of_char b :: nat); z = (of_char c :: nat)
      in (x = 0xE1 \<and> y = 0x9A \<and> z = 0x80)
       \<or> (x = 0xE2 \<and> y = 0x80 \<and> (0x80 \<le> z \<and> z \<le> 0x8A \<or> z = 0xA8 \<or> z = 0xA9 \<or> z = 0xAF))
       \<or> (x = 0xE2 \<and> y = 0x81 \<and> z = 0x9F)
       \<or> (x = 0xE3 \<and> y = 0x80 \<and> z = 0x80)
       \<or> (x = 0xEF \<and> y = 0xBB \<and> z = 0xBF))"

fun js_blank :: "string \<Rightarrow> bool" where
  "js_blank [] = True"
| "js_blank [a] = ws1 a"
| "js_blank [a, b] = (if ws1 a then js_blank [b] else ws2 a b)"
| "js_blank (a # b # c # rest) =
     (if ws1 a then js_blank (b # c # rest)
      else if ws2 a b then js_blank (c # rest)
      else if ws3 a b c then js_blank rest
      else False)"

definition OPENAI_API_KEY_PREFIX :: string where "OPENAI_API_KEY_PREFIX = ''sk-''"

text \<open>\<open>env\<close> is the value of \<open>process.env.OPENAI_API_KEY\<close>.\<close>

definition validateApiKey :: "string option \<Rightarrow> string option \<Rightarrow> string + string" where
  "validateApiKey apiKey env =
     (let key = (case apiKey of Some k \<Rightarrow> Some k | None \<Rightarrow> env)
      in if (case key of None \<Rightarrow> True | Some k \<Rightarrow> k = [])
         then Inl (''OpenAI API key not found. Provide it via:'' @ [CHR 0x0A]
                   @ ''1. OpenAIClient({ apiKey: '' @ [CHR 0x27] @ ''...'' @ [CHR 0x27] @ '' })''
                   @ [CHR 0x0A] @ ''2. OPENAI_API_KEY environment variable'')
         else if take (length OPENAI_API_KEY_PREFIX) (the key) \<noteq> OPENAI_API_KEY_PREFIX
         then Inl (''Invalid OpenAI API key format. API keys should start with ''
                   @ [CHR 0x27] @ OPENAI_API_KEY_PREFIX @ [CHR 0x27])
         else Inr (the key))"

definition validateTemperature :: "real option \<Rightarrow> string + real" where
  "validateTemperature temperature =
     (let validatedTemperature = (case temperature of Some t \<Rightarrow> t | None \<Rightarrow> 0.7)
      in if validatedTemperature < 0 \<or> validatedTemperature > 2
         then Inl ''Temperature must be between 0 and 2''
         else Inr validatedTemperature)"

definition validateMaxTokens :: "int option \<Rightarrow> int \<Rightarrow> string + int option" where
  "validateMaxTokens maxTokensArg contextWindow =
     (case maxTokensArg of
        None \<Rightarrow> Inr None
      | Some n \<Rightarrow>
          if n < 1 then Inl ''maxTokens must be a positive number (at least 1)''
          else if n > contextWindow
          then Inl (''maxTokens ('' @ show_int n @ '') exceeds model'' @ [CHR 0x27]
                    @ ''s context window ('' @ show_int contextWindow @ '')'')
          else Inr (Some n))"

definition validateSystemMessage :: "string option \<Rightarrow> string + string option" where
  "validateSystemMessage systemMessageArg =
     (case systemMessageArg of
        None \<Rightarrow> Inr None
      | Some msg \<Rightarrow>
          if js_blank msg then Inl ''System message cannot be empty or whitespace only''
          else Inr (Some msg))"

text \<open>
  The configuration as the constructor reads it.  \<open>env_OPENAI_API_KEY\<close> is the
  environment variable at construction time and \<open>cfg_contextWindow\<close> the registry's
  context window of the default model.  The constructor runs the validators in the
  source's order and throws the first error; then it creates the three managers.  The
  transport object and the builders and parsers it also creates hold no state that the
  pipeline reads, and the validated key and temperature are not kept in the state.
\<close>

record OpenAIClientConfig =
  cfg_apiKey :: "string option"
  env_OPENAI_API_KEY :: "string option"
  cfg_contextWindow :: int
  cfg_defaultTemperature :: "real option"
  cfg_systemMessage :: "string option"
  cfg_maxTokens :: "int option"
  cfg_rateLimit :: "(int option \<times> int option) option"
  cfg_requestDelay :: "real option"
  cfg_useJitter :: "bool option"
  cfg_jitterFactor :: "real option"
  cfg_enableRetry :: "bool option"
  cfg_maxRetryAttempts :: "int option"
  cfg_baseRetryDelay :: "real option"
  cfg_maxRetryDelay :: "real option"

definition new_OpenAIClientService :: "OpenAIClientConfig \<Rightarrow> world \<Rightarrow> string + client" where
  "new_OpenAIClientService config w =
     (case validateApiKey (cfg_apiKey config) (env_OPENAI_API_KEY config) of
        Inl msg \<Rightarrow> Inl msg
      | Inr apiKey \<Rightarrow>
     (case validateTemperature (cfg_defaultTemperature config) of
        Inl msg \<Rightarrow> Inl msg
      | Inr temperature \<Rightarrow>
     (case validateMaxTokens (cfg_maxTokens config) (cfg_contextWindow config) of
        Inl msg \<Rightarrow> Inl msg
      | Inr maxTokensSetting \<Rightarrow>
     (case validateSystemMessage (cfg_systemMessage config) of
        Inl msg \<Rightarrow> Inl msg
      | Inr systemMessageSetting \<Rightarrow>
     (case validateRateLimits (cfg_rateLimit config) of
        Inl msg \<Rightarrow> Inl msg
      | Inr rateLimits \<Rightarrow>
     (case validateThrottleSettings (cfg_requestDelay config) (cfg_useJitter config)
             (cfg_jitterFactor config) of
        Inl msg \<Rightarrow> Inl msg
      | Inr throttleSettings \<Rightarrow>
     (case validateRetrySettings (cfg_enableRetry config) (cfg_maxRetryAttempts config)
             (cfg_baseRetryDelay config) (cfg_maxRetryDelay config) of
        Inl msg \<Rightarrow> Inl msg
      | Inr retrySettings \<Rightarrow>
          Inr \<lparr>clock = clock w, rnd = rnd w, rnd_next = rnd_next w, sleeps = sleeps w,
               calls = calls w, upstream = upstream w,
               upstream_stream = upstream_stream w,
               throttleManager = new_ThrottleManager throttleSettings,
               rateLimitManager = new_RateLimitManager rateLimits,
               retryManager = retrySettings,
               defaultSystemMessage = systemMessageSetting,
               defaultMaxTokens = maxTokensSetting\<rparr>)))))))"

section \<open>Scenarios\<close>

text \<open>
  Concrete runs.  The environment starts at clock 0 with a script for the remote service
  and random samples that are all 0; the request is the text "Hello" with nothing else set.
  \<open>default_config\<close> sets an API key and nothing else, for the default model \<open>gpt-4o\<close> with
  its context window of 128000 tokens.
\<close>

definition quiet_world :: "(nat \<Rightarrow> reply) \<Rightarrow> world" where
  "quiet_world script =
     \<lparr>clock = 0, rnd = (\<lambda>_. 0), rnd_next = 0, sleeps = [], calls = 0, upstream = script,
      upstream_stream = (\<lambda>_. StreamReply 0 (Inl js_undefined))\<rparr>"

definition default_config :: OpenAIClientConfig where
  "default_config =
     \<lparr>cfg_apiKey = Some ''sk-test'', env_OPENAI_API_KEY = None, cfg_contextWindow = 128000,
      cfg_defaultTemperature = None,
      cfg_systemMessage = None, cfg_maxTokens = None, cfg_rateLimit = None,
      cfg_requestDelay = None, cfg_useJitter = None, cfg_jitterFactor = None,
      cfg_enableRetry = None, cfg_maxRetryAttempts = None, cfg_baseRetryDelay = None,
      cfg_maxRetryDelay = None\<rparr>"

definition plain_input :: PromptInput where
  "plain_input =
     \<lparr>input = ''Hello'', systemMessage = None, maxTokens = None, messages = [],
      outputSchema = None\<rparr>"

definition completion_ok :: completion where
  "completion_ok =
     \<lparr>message_content = ''Hi there'', completion_model = ''gpt-4o-mini'',
      finish_reason = Some ''stop'', usage_tokens = Some (10, 2, 12)\<rparr>"

definition error_503 :: thrown where
  "error_503 = ErrorInstance ''503 Service Unavailable'' (Some (JNumber 503)) None"

definition error_401 :: thrown where
  "error_401 = ErrorInstance ''401 Incorrect API key provided'' (Some (JNumber 401)) None"

text \<open>What a finished call shows: its response status, and the client state it left.\<close>

definition outcome_status ::
  "((thrown + PromptResponse) \<times> client) option \<Rightarrow> PromptResponseStatus option" where
  "outcome_status res =
     (case res of
        None \<Rightarrow> None
      | Some rc \<Rightarrow> (case fst rc of Inl _ \<Rightarrow> None | Inr r \<Rightarrow> Some (status r)))"

definition outcome_requestTimestamps ::
  "((thrown + PromptResponse) \<times> client) option \<Rightarrow> int list option" where
  "outcome_requestTimestamps res =
     (case res of None \<Rightarrow> None | Some rc \<Rightarrow> Some (requestTimestamps (rateLimitManager (snd rc))))"

definition outcome_sleeps ::
  "((thrown + PromptResponse) \<times> client) option \<Rightarrow> real list option" where
  "outcome_sleeps res = (case res of None \<Rightarrow> None | Some rc \<Rightarrow> Some (sleeps (snd rc)))"

definition outcome_clock ::
  "((thrown + PromptResponse) \<times> client) option \<Rightarrow> int option" where
  "outcome_clock res = (case res of None \<Rightarrow> None | Some rc \<Rightarrow> Some (clock (snd rc)))"

text \<open>
  Scenario A: \<open>requestsPerMinute = 2\<close>, no token limit, no throttle; the service answers
  every call after 500 ms.  Two calls are made, the second as soon as the first is back.
  \<open>scenarioA_client\<close> is the client the constructor builds from \<open>scenarioA_config\<close>, and
  \<open>scenarioA_after_first\<close> the state in which the first call leaves it.
\<close>

definition steady_script :: "nat \<Rightarrow> reply" where
  "steady_script i = Reply 500 (Inr completion_ok)"

definition scenarioA_config :: OpenAIClientConfig where
  "scenarioA_config = default_config\<lparr>cfg_rateLimit := Some (Some 2, None)\<rparr>"

definition scenarioA_client :: client where
  "scenarioA_client =
     \<lparr>clock = 0, rnd = (\<lambda>_. 0), rnd_next = 0, sleeps = [], calls = 0,
      upstream = steady_script,
      upstream_stream = (\<lambda>_. StreamReply 0 (Inl js_undefined)),
      throttleManager = \<lparr>requestDelay = None, useJitter = True, jitterFactor = 0.3,
                          lastRequestTime = 0\<rparr>,
      rateLimitManager = \<lparr>requestsPerMinute = Some 2, tokensPerMinute = None,
                           requestTimestamps = [], tokenTimestamps = []\<rparr>,
      retryManager = \<lparr>enabled = True, maxAttempts = 3, baseDelay = 1000, maxDelay = 60000\<rparr>,
      defaultSystemMessage = None, defaultMaxTokens = None\<rparr>"

definition scenarioA_after_first :: client where
  "scenarioA_after_first =
     scenarioA_client
       \<lparr>clock := 500, calls := 1,
        rateLimitManager := \<lparr>requestsPerMinute = Some 2, tokensPerMinute = None,
                             requestTimestamps = [0, 500],
                             tokenTimestamps = [(0, 1002), (500, 12)]\<rparr>\<rparr>"

definition scenarioA_first :: "((thrown + PromptResponse) \<times> client) option" where
  "scenarioA_first = prompt 61 plain_input scenarioA_client"

definition scenarioA_second :: "((thrown + PromptResponse) \<times> client) option" where
  "scenarioA_second = prompt 61 plain_input scenarioA_after_first"

text \<open>
  A retried call on a client built from the default configuration (no limits, three
  attempts, base delay 1000 ms): the service fails the first call with a 503 after
  100 ms and answers the second after 100 ms.
\<close>

definition retried_script :: "nat \<Rightarrow> reply" where
  "retried_script i = (if i = 0 then Reply 100 (Inl error_503) else Reply 100 (Inr completion_ok))"

definition retried_client :: client where
  "retried_client =
     \<lparr>clock = 0, rnd = (\<lambda>_. 0), rnd_next = 0, sleeps = [], calls = 0,
      upstream = retried_script,
      upstream_stream = (\<lambda>_. StreamReply 0 (Inl js_undefined)),
      throttleManager = \<lparr>requestDelay = None, useJitter = True, jitterFactor = 0.3,
                          lastRequestTime = 0\<rparr>,
      rateLimitManager = \<lparr>requestsPerMinute = None, tokensPerMinute = None,
                           requestTimestamps = [], tokenTimestamps = []\<rparr>,
      retryManager = \<lparr>enabled = True, maxAttempts = 3, baseDelay = 1000, maxDelay = 60000\<rparr>,
      defaultSystemMessage = None, defaultMaxTokens = None\<rparr>"

definition retried_call :: "((thrown + PromptResponse) \<times> client) option" where
  "retried_call = prompt 61 plain_input retried_client"

text \<open>A call that the service rejects with a 401 every time.\<close>

definition rejected_client :: client where
  "rejected_client =
     \<lparr>clock = 0, rnd = (\<lambda>_. 0), rnd_next = 0, sleeps = [], calls = 0,
      upstream = (\<lambda>_. Reply 100 (Inl error_401)),
      upstream_stream = (\<lambda>_. StreamReply 100 (Inl error_401)),
      throttleManager = new_ThrottleManager (None, True, 0.3),
      rateLimitManager = new_RateLimitManager (Some 60, Some 90000),
      retryManager = \<lparr>enabled = True, maxAttempts = 3, baseDelay = 1000, maxDelay = 60000\<rparr>,
      defaultSystemMessage = Some ''You are a helpful AI assistant.'',
      defaultMaxTokens = Some 1000\<rparr>"

text \<open>
  Further clients built from \<open>default_config\<close> (no limits, no throttle, three attempts, base
  delay 1000 ms), each with its scripts for plain and for streamed calls.
\<close>

definition default_client :: "(nat \<Rightarrow> reply) \<Rightarrow> (nat \<Rightarrow> stream_reply) \<Rightarrow> client" where
  "default_client script stream_script =
     \<lparr>clock = 0, rnd = (\<lambda>_. 0), rnd_next = 0, sleeps = [], calls = 0,
      upstream = script, upstream_stream = stream_script,
      throttleManager = \<lparr>requestDelay = None, useJitter = True, jitterFactor = 0.3,
                          lastRequestTime = 0\<rparr>,
      rateLimitManager = \<lparr>requestsPerMinute = None, tokensPerMinute = None,
                           requestTimestamps = [], tokenTimestamps = []\<rparr>,
      retryManager = \<lparr>enabled = True, maxAttempts = 3, baseDelay = 1000, maxDelay = 60000\<rparr>,
      defaultSystemMessage = None, defaultMaxTokens = None\<rparr>"

definition outcome_calls :: "((thrown + PromptResponse) \<times> client) option \<Rightarrow> nat option" where
  "outcome_calls res = (case res of None \<Rightarrow> None | Some rc \<Rightarrow> Some (calls (snd rc)))"

definition quiet_onChunk :: "string \<Rightarrow> thrown option" where
  "quiet_onChunk fragment = None"

definition no_stream :: "nat \<Rightarrow> stream_reply" where
  "no_stream i = StreamReply 0 (Inl js_undefined)"

text \<open>The service rejects the first call with a 401 and would answer every later one.\<close>

definition rejected_first_script :: "nat \<Rightarrow> reply" where
  "rejected_first_script i =
     (if i = 0 then Reply 100 (Inl error_401) else Reply 100 (Inr completion_ok))"

definition rejected_first_client :: client where
  "rejected_first_client = default_client rejected_first_script no_stream"

text \<open>The returned content violates the output schema of the request.\<close>

definition name_required_schema :: "string \<Rightarrow> schema_result" where
  "name_required_schema raw = ZodError ''name: Required''"

definition strict_input :: PromptInput where
  "strict_input =
     \<lparr>input = ''Hello'', systemMessage = None, maxTokens = None, messages = [],
      outputSchema = Some name_required_schema\<rparr>"

definition answering_client :: client where
  "answering_client = default_client steady_script no_stream"

text \<open>Every streamed call delivers one fragment and then breaks off with a network error.\<close>

definition network_error :: thrown where
  "network_error = ErrorInstance ''network error'' None None"

definition hello_chunk :: chunk where
  "hello_chunk = \<lparr>delta = ''Hel'', chunk_finish_reason = None, chunk_model = ''gpt-4o''\<rparr>"

definition broken_stream :: "nat \<Rightarrow> stream_reply" where
  "broken_stream i = StreamReply 200 (Inr ([hello_chunk], Some network_error))"

definition broken_stream_client :: client where
  "broken_stream_client = default_client steady_script broken_stream"

text \<open>
  Two client-side failures whose messages happen to contain the digits 500: the
  service's 400 for a request that is too long, and the schema mismatch that
  \<open>parseAndValidateOutput\<close> throws when the content 900 violates a maximum of 500.
\<close>

definition context_length_error :: thrown where
  "context_length_error =
     ErrorInstance
       ''400 This model's maximum context length is 8192 tokens. However, you requested 15002 tokens (5002 in the messages, 10000 in the completion). Please reduce the length of the messages or completion.''
       (Some (JNumber 400)) None"

definition too_long_script :: "nat \<Rightarrow> reply" where
  "too_long_script i = Reply 100 (Inl context_length_error)"

definition too_long_client :: client where
  "too_long_client = default_client too_long_script no_stream"

definition max_500_schema :: "string \<Rightarrow> schema_result" where
  "max_500_schema raw =
     (if raw = ''900'' then ZodError '': Number must be less than or equal to 500''
      else Validated raw)"

definition schema_range_error :: thrown where
  "schema_range_error =
     ErrorInstance
       ''OpenAI response does not match expected schema: : Number must be less than or equal to 500''
       None None"

section \<open>Properties of the delay policy\<close>

lemma jitter_lower:
  fixes d f r :: real
  assumes "0 \<le> d" "0 \<le> f" "0 \<le> r"
  shows "d * (1 - f) \<le> d + (r * 2 - 1) * (d * f)"
proof -
  have "d + (r * 2 - 1) * (d * f) - d * (1 - f) = 2 * r * (d * f)"
    by (simp add: algebra_simps)
  moreover have "0 \<le> 2 * r * (d * f)"
    using assms by simp
  ultimately show ?thesis by linarith
qed

lemma jitter_upper:
  fixes d f r :: real
  assumes "0 \<le> d" "0 \<le> f" "r < 1"
  shows "d + (r * 2 - 1) * (d * f) \<le> d * (1 + f)"
proof -
  have "d * (1 + f) - (d + (r * 2 - 1) * (d * f)) = 2 * (1 - r) * (d * f)"
    by (simp add: algebra_simps)
  moreover have "0 \<le> 2 * (1 - r) * (d * f)"
    using assms by simp
  ultimately show ?thesis by linarith
qed

lemma jittered_delay_bounds:
  fixes d f r :: real
  assumes "0 \<le> d" "0 \<le> f" "f \<le> 1" "0 \<le> r" "r < 1"
  shows "d * (1 - f) \<le> max 0 (d + (r * 2 - 1) * (d * f))"
    and "max 0 (d + (r * 2 - 1) * (d * f)) \<le> d * (1 + f)"
    and "0 \<le> max 0 (d + (r * 2 - 1) * (d * f))"
proof -
  show "d * (1 - f) \<le> max 0 (d + (r * 2 - 1) * (d * f))"
    using jitter_lower [OF assms(1,2,4)] by simp
  have "0 \<le> d * (1 + f)" using assms by simp
  then show "max 0 (d + (r * 2 - 1) * (d * f)) \<le> d * (1 + f)"
    using jitter_upper [OF assms(1,2,5)] by simp
  show "0 \<le> max 0 (d + (r * 2 - 1) * (d * f))" by simp
qed

text \<open>
  Claim C8.  For every base delay \<open>d \<ge> 0\<close>, jitter factor \<open>f\<close> in \<open>[0,1]\<close> and random
  sample \<open>r\<close> in \<open>[0,1)\<close>, \<open>calculateDelayWithJitter(d, true, f)\<close> lies in
  \<open>[d*(1-f), d*(1+f)]\<close> and is never negative; with jitter disabled it returns \<open>d\<close>
  exactly.  The same holds for the private copy of the formula in \<open>ThrottleManager\<close>.
\<close>

theorem C8_jittered_delay_bounds:
  assumes "0 \<le> d" and "0 \<le> f" and "f \<le> 1" and "0 \<le> r" and "r < 1"
  shows "d * (1 - f) \<le> calculateDelayWithJitter d True f r
       \<and> calculateDelayWithJitter d True f r \<le> d * (1 + f)
       \<and> 0 \<le> calculateDelayWithJitter d True f r
       \<and> calculateDelayWithJitter d False f r = d
       \<and> ThrottleManager_calculateDelay True f d r = calculateDelayWithJitter d True f r
       \<and> ThrottleManager_calculateDelay False f d r = d"
  using jittered_delay_bounds [OF assms]
  by (simp add: calculateDelayWithJitter_def ThrottleManager_calculateDelay_def Let_def)

theorem C8_jittered_delay_bounds_witness:
  "(700::real) \<le> calculateDelayWithJitter 1000 True 0.3 0
 \<and> calculateDelayWithJitter 1000 True 0.3 0 \<le> 1300
 \<and> calculateDelayWithJitter 1000 True 0.3 0 = 700
 \<and> calculateDelayWithJitter 1000 False 0.3 0 = 1000"
proof -
  have h: "(0::real) \<le> 1000" "(0::real) \<le> 0.3" "(0.3::real) \<le> 1" "(0::real) \<le> 0" "(0::real) < 1"
    by simp_all
  have v: "calculateDelayWithJitter 1000 True 0.3 0 = 700"
    by (simp add: calculateDelayWithJitter_def Let_def)
  show ?thesis
    using C8_jittered_delay_bounds [OF h] v by simp
qed

lemma validateRetrySettings_Inr:
  assumes "validateRetrySettings en ma bd md = Inr m"
  shows "1 \<le> maxAttempts m" and "maxAttempts m \<le> 10"
    and "100 \<le> baseDelay m" and "baseDelay m \<le> 10000" and "baseDelay m \<le> maxDelay m"
  using assms
  by (auto simp: validateRetrySettings_def Let_def split: if_splits)

lemma capped_nonneg:
  fixes b M :: real
  assumes "0 \<le> b" "0 \<le> M"
  shows "0 \<le> min (b * 2 ^ n) M"
  using assms by simp

lemma capped_mono:
  fixes b M :: real
  assumes "0 \<le> b"
  shows "min (b * 2 ^ n) M \<le> min (b * 2 ^ Suc n) M"
proof -
  have "b * 2 ^ n \<le> b * 2 ^ Suc n"
    using assms by simp
  then show ?thesis by (rule min.mono) simp
qed

lemma calculateDelay_same_sample_mono:
  assumes "0 \<le> baseDelay m" and "0 \<le> r"
  shows "calculateDelay m n r \<le> calculateDelay m (Suc n) r"
proof -
  let ?c = "min (baseDelay m * 2 ^ n) (maxDelay m)"
  let ?c' = "min (baseDelay m * 2 ^ Suc n) (maxDelay m)"
  have c: "?c \<le> ?c'" by (rule capped_mono [OF assms(1)])
  have "?c + r * 0.25 * ?c = (1 + r * 0.25) * ?c" by (simp add: algebra_simps)
  also have "\<dots> \<le> (1 + r * 0.25) * ?c'"
    using c assms(2) by (intro mult_left_mono) simp_all
  also have "\<dots> = ?c' + r * 0.25 * ?c'" by (simp add: algebra_simps)
  finally have "\<lfloor>?c + r * 0.25 * ?c\<rfloor> \<le> \<lfloor>?c' + r * 0.25 * ?c'\<rfloor>"
    by (rule floor_mono)
  then show ?thesis
    by (simp add: calculateDelay_def Let_def)
qed

lemma calculateDelay_uncapped_mono:
  assumes b: "0 \<le> baseDelay m"
    and uncapped: "baseDelay m * 2 ^ Suc n \<le> maxDelay m"
    and r1: "r1 < 1" and r2: "0 \<le> r2"
  shows "calculateDelay m n r1 \<le> calculateDelay m (Suc n) r2"
proof -
  let ?e = "baseDelay m * 2 ^ n"
  have e0: "0 \<le> ?e" using b by simp
  have e_le: "?e \<le> maxDelay m" using uncapped e0 by simp
  have c: "min ?e (maxDelay m) = ?e" using e_le by simp
  have c': "min (baseDelay m * 2 ^ Suc n) (maxDelay m) = 2 * ?e"
    using uncapped by (simp add: min_def)
  have "r1 * 0.25 * ?e \<le> 1 * 0.25 * ?e"
    using r1 e0 by (intro mult_right_mono) simp_all
  then have "?e + r1 * 0.25 * ?e \<le> 2 * ?e" using e0 by simp
  also have "\<dots> \<le> 2 * ?e + r2 * 0.25 * (2 * ?e)" using r2 e0 by simp
  finally have "\<lfloor>?e + r1 * 0.25 * ?e\<rfloor> \<le> \<lfloor>2 * ?e + r2 * 0.25 * (2 * ?e)\<rfloor>"
    by (rule floor_mono)
  then show ?thesis
    unfolding calculateDelay_def Let_def c c' by simp
qed

lemma calculateDelay_cap:
  assumes M: "0 \<le> maxDelay m" and r0: "0 \<le> r" and r1: "r \<le> 1"
  shows "calculateDelay m n r \<le> maxDelay m * 1.25"
proof -
  let ?c = "min (baseDelay m * 2 ^ n) (maxDelay m)"
  have cM: "?c \<le> maxDelay m" by simp
  have eq: "?c + r * 0.25 * ?c = (1 + r * 0.25) * ?c" by (simp add: algebra_simps)
  have f0: "0 \<le> 1 + r * 0.25" using r0 by simp
  have f1: "1 + r * 0.25 \<le> 1.25" using r1 by simp
  have "(1 + r * 0.25) * ?c \<le> (1 + r * 0.25) * maxDelay m"
    using cM f0 by (rule mult_left_mono)
  also have "\<dots> \<le> 1.25 * maxDelay m"
    using f1 M by (rule mult_right_mono)
  finally have le: "?c + r * 0.25 * ?c \<le> maxDelay m * 1.25"
    unfolding eq by (simp add: mult.commute)
  have "of_int \<lfloor>?c + r * 0.25 * ?c\<rfloor> \<le> ?c + r * 0.25 * ?c"
    by (rule of_int_floor_le)
  then have "of_int \<lfloor>?c + r * 0.25 * ?c\<rfloor> \<le> maxDelay m * 1.25"
    using le by (rule order_trans)
  then show ?thesis
    unfolding calculateDelay_def Let_def .
qed

lemma calculateDelay_is_backoff:
  "calculateDelay m n r = calculateExponentialBackoff n (baseDelay m) (maxDelay m) True 0.25 r"
  by (simp add: calculateDelay_def calculateExponentialBackoff_def Let_def)

text \<open>
  Across the cap, two delays drawn with different samples need not be ordered: with
  \<open>baseDelay = 1000\<close> and \<open>maxDelay = 1100\<close> the term of attempt 1 is capped, and the
  sample 0.9 at attempt 0 gives a longer delay than the sample 0 at attempt 1.
\<close>

lemma backoff_across_the_cap:
  "calculateDelay \<lparr>enabled = True, maxAttempts = 3, baseDelay = 1000, maxDelay = 1100\<rparr> 0 0.9 = 1225
 \<and> calculateDelay \<lparr>enabled = True, maxAttempts = 3, baseDelay = 1000, maxDelay = 1100\<rparr> 1 0 = 1100"
  by (simp add: calculateDelay_def Let_def)

text \<open>
  Claim C5.  For a retry policy that construction-time validation accepts, every attempt
  index \<open>n\<close> and all jitter samples in \<open>[0,1)\<close>: while the exponential term of the later
  attempt is not capped (\<open>baseDelay * 2^(n+1) \<le> maxDelay\<close>) the delay of attempt \<open>n\<close> is at
  most the delay of attempt \<open>n+1\<close>, whatever two samples are drawn; with one and the same
  sample this holds at every \<open>n\<close>; and no delay exceeds \<open>maxDelay * 1.25\<close>.  The stand-alone
  \<open>calculateExponentialBackoff\<close> with its default 25% jitter computes the same delay.
\<close>

theorem C5_backoff_monotone_and_capped:
  assumes valid: "validateRetrySettings en ma bd md = Inr m"
    and "0 \<le> r1" and "r1 < 1" and "0 \<le> r2" and "r2 < 1"
  shows "(baseDelay m * 2 ^ Suc n \<le> maxDelay m \<longrightarrow>
            calculateDelay m n r1 \<le> calculateDelay m (Suc n) r2)
       \<and> calculateDelay m n r1 \<le> calculateDelay m (Suc n) r1
       \<and> calculateDelay m n r1 \<le> maxDelay m * 1.25
       \<and> calculateExponentialBackoff n (baseDelay m) (maxDelay m) True 0.25 r1
           = calculateDelay m n r1"
proof -
  have b: "0 \<le> baseDelay m" and M: "0 \<le> maxDelay m"
    using validateRetrySettings_Inr(3,5) [OF valid] by simp_all
  have r1le: "r1 \<le> 1" using assms(3) by simp
  have u: "baseDelay m * 2 ^ Suc n \<le> maxDelay m \<longrightarrow>
             calculateDelay m n r1 \<le> calculateDelay m (Suc n) r2"
    using calculateDelay_uncapped_mono [OF b _ assms(3,4)] by blast
  have s: "calculateDelay m n r1 \<le> calculateDelay m (Suc n) r1"
    by (rule calculateDelay_same_sample_mono [OF b assms(2)])
  have c: "calculateDelay m n r1 \<le> maxDelay m * 1.25"
    by (rule calculateDelay_cap [OF M assms(2) r1le])
  have e: "calculateExponentialBackoff n (baseDelay m) (maxDelay m) True 0.25 r1
             = calculateDelay m n r1"
    by (rule calculateDelay_is_backoff [symmetric])
  from u s c e show ?thesis by blast
qed

theorem C5_backoff_monotone_and_capped_witness:
  "validateRetrySettings None (Some 3) (Some 100) (Some 1000)
     = Inr \<lparr>enabled = True, maxAttempts = 3, baseDelay = 100, maxDelay = 1000\<rparr>
 \<and> calculateDelay \<lparr>enabled = True, maxAttempts = 3, baseDelay = 100, maxDelay = 1000\<rparr> 1 (1/2) = 225
 \<and> calculateDelay \<lparr>enabled = True, maxAttempts = 3, baseDelay = 100, maxDelay = 1000\<rparr> 2 0 = 400
 \<and> calculateDelay \<lparr>enabled = True, maxAttempts = 3, baseDelay = 100, maxDelay = 1000\<rparr> 1 (1/2)
     \<le> calculateDelay \<lparr>enabled = True, maxAttempts = 3, baseDelay = 100, maxDelay = 1000\<rparr> (Suc 1) 0
 \<and> calculateDelay \<lparr>enabled = True, maxAttempts = 3, baseDelay = 100, maxDelay = 1000\<rparr> 1 (1/2)
     \<le> 1000 * 1.25"
proof -
  let ?m = "\<lparr>enabled = True, maxAttempts = 3, baseDelay = 100, maxDelay = 1000\<rparr>"
  have v: "validateRetrySettings None (Some 3) (Some 100) (Some 1000) = Inr ?m"
    by (simp add: validateRetrySettings_def)
  have u: "baseDelay ?m * 2 ^ Suc 1 \<le> maxDelay ?m" by simp
  have d1: "calculateDelay ?m 1 (1/2) = 225"
    by (simp add: calculateDelay_def Let_def)
  have d2: "calculateDelay ?m 2 0 = 400"
    by (simp add: calculateDelay_def Let_def)
  have r: "(0::real) \<le> 1/2" "(1/2::real) < 1" "(0::real) \<le> 0" "(0::real) < 1" by simp_all
  show ?thesis
    using C5_backoff_monotone_and_capped [OF v r, of 1] u v d1 d2 by simp
qed

section \<open>Error classification\<close>

lemma take_eq_iff_prefix: "(take (length xs) ys = xs) = prefix xs ys"
proof
  assume "take (length xs) ys = xs"
  then have "ys = xs @ drop (length xs) ys"
    by (metis append_take_drop_id)
  then show "prefix xs ys" by (rule prefixI)
next
  assume "prefix xs ys"
  then obtain zs where "ys = xs @ zs" by (rule prefixE)
  then show "take (length xs) ys = xs" by simp
qed

lemma str_includes_sublist: "str_includes s sub = sublist sub s"
proof (induction s)
  case Nil
  show ?case by auto
next
  case (Cons c cs)
  show ?case
    unfolding str_includes.simps Cons.IH take_eq_iff_prefix
    by (simp add: sublist_Cons_right)
qed

lemma getErrorMessage_message_of: "getErrorMessage e = message_of e"
  by (cases e) (simp_all add: getErrorMessage_def)

lemma getErrorCode_status_of: "(getErrorCode e = Some (JNumber n)) = (status_of e = Some n)"
  by (induction e rule: status_of.induct) (simp_all add: getErrorCode_def)

text \<open>
  What the code does: \<open>isRetriableError\<close> answers true exactly for a rate-limit rejection
  (numeric status 429, or the message contains "rate limit" or "429"), a timeout (the
  message contains "timeout" or "timed out"), an upstream 5xx (status or message marker
  500, 502, 503, 504) or a network failure (the message contains ECONNREFUSED, ENOTFOUND,
  ETIMEDOUT, ECONNRESET or "network error").  A marker is any occurrence of the text in
  the message.
\<close>

lemma isRetriableError_by_kind: "isRetriableError e = retriable_kind e"
  unfolding isRetriableError_def Let_def str_includes_sublist retriable_kind_def
    rate_limit_rejection_def timeout_failure_def upstream_5xx_def network_failure_def
    has_status_def has_marker_def error_constants getErrorCode_status_of
    getErrorMessage_message_of sublist_def
  by auto

section \<open>Throttle gate\<close>

text \<open>
  Claim C10.  A request delay of 0 passes construction-time validation (with a jitter
  factor in range), and a throttle gate holding it behaves as one with no delay
  configured: \<open>throttle()\<close> returns at once, leaving the environment (clock, sleep log,
  random stream) and \<open>lastRequestTime\<close> as they were.
\<close>

theorem C10_zero_delay_is_unconfigured:
  assumes jf: "0 \<le> f" "f \<le> 1"
    and zero: "requestDelay t = Some 0"
  shows "validateThrottleSettings (Some 0) uj (Some f)
           = Inr (Some 0, (case uj of Some b \<Rightarrow> b | None \<Rightarrow> True), f)
       \<and> throttle t w = (t, w)
       \<and> throttle (t\<lparr>requestDelay := None\<rparr>) w = (t\<lparr>requestDelay := None\<rparr>, w)
       \<and> sleeps (snd (throttle t w)) = sleeps w
       \<and> lastRequestTime (fst (throttle t w)) = lastRequestTime t"
  using assms
  by (simp add: validateThrottleSettings_def throttle_def requestDelay_falsy_def)

theorem C10_zero_delay_is_unconfigured_witness:
  "validateThrottleSettings (Some 0) None (Some 0.3) = Inr (Some 0, True, 0.3)
 \<and> throttle (new_ThrottleManager (Some 0, True, 0.3))
      \<lparr>clock = 5000, rnd = (\<lambda>_. 0), rnd_next = 0, sleeps = [], calls = 0,
       upstream = (\<lambda>_. Reply 0 (Inl js_undefined)),
       upstream_stream = (\<lambda>_. StreamReply 0 (Inl js_undefined))\<rparr>
    = (new_ThrottleManager (Some 0, True, 0.3),
       \<lparr>clock = 5000, rnd = (\<lambda>_. 0), rnd_next = 0, sleeps = [], calls = 0,
        upstream = (\<lambda>_. Reply 0 (Inl js_undefined)),
        upstream_stream = (\<lambda>_. StreamReply 0 (Inl js_undefined))\<rparr>)"
proof -
  have h: "(0::real) \<le> 0.3" "(0.3::real) \<le> 1"
    "requestDelay (new_ThrottleManager (Some 0, True, 0.3)) = Some 0"
    by (simp_all add: new_ThrottleManager_def)
  show ?thesis
    using C10_zero_delay_is_unconfigured [OF h, where uj = None
        and w = "\<lparr>clock = 5000, rnd = (\<lambda>_. 0), rnd_next = 0, sleeps = [], calls = 0,
                  upstream = (\<lambda>_. Reply 0 (Inl js_undefined)),
                  upstream_stream = (\<lambda>_. StreamReply 0 (Inl js_undefined))\<rparr>"]
    by simp
qed

section \<open>Rate limit window\<close>

lemma canMakeRequest_config [simp]:
  "requestsPerMinute (snd (canMakeRequest now est rl)) = requestsPerMinute rl"
  "tokensPerMinute (snd (canMakeRequest now est rl)) = tokensPerMinute rl"
  by (simp_all add: canMakeRequest_def Let_def)

lemma canMakeRequest_requestTimestamps:
  "requestTimestamps (snd (canMakeRequest now est rl))
     = filter (\<lambda>ts. ts > now - 60000) (requestTimestamps rl)"
  by (simp add: canMakeRequest_def Let_def RATE_LIMIT_WINDOW_MS_def)

lemma canMakeRequest_tokenTimestamps:
  "tokenTimestamps (snd (canMakeRequest now est rl))
     = filter (\<lambda>t. fst t > now - 60000) (tokenTimestamps rl)"
  by (simp add: canMakeRequest_def Let_def RATE_LIMIT_WINDOW_MS_def)

lemma canMakeRequest_full_window:
  assumes "requestsPerMinute rl = Some R"
    and "R \<le> int (length (requestTimestamps rl))"
    and "\<forall>ts \<in> set (requestTimestamps rl). now - 60000 < ts"
  shows "fst (canMakeRequest now est rl) = False"
    and "requestTimestamps (snd (canMakeRequest now est rl)) = requestTimestamps rl"
proof -
  have keep: "filter (\<lambda>ts. ts > now - 60000) (requestTimestamps rl) = requestTimestamps rl"
    using assms(3) by (simp add: filter_id_conv)
  show "requestTimestamps (snd (canMakeRequest now est rl)) = requestTimestamps rl"
    by (simp add: canMakeRequest_requestTimestamps keep)
  show "fst (canMakeRequest now est rl) = False"
    using assms(1,2)
    by (simp add: canMakeRequest_def Let_def RATE_LIMIT_WINDOW_MS_def keep
        isRequestRateLimitExceeded_def)
qed

lemma canMakeRequest_after_ageing:
  assumes rpm: "requestsPerMinute rl = Some R"
    and len: "int (length (requestTimestamps rl)) \<le> R"
    and ne: "requestTimestamps rl \<noteq> []"
    and aged: "Min (set (requestTimestamps rl)) \<le> now - 60000"
    and tok: "tokensPerMinute rl = None \<or> est = 0"
  shows "fst (canMakeRequest now est rl) = True"
proof -
  have "Min (set (requestTimestamps rl)) \<in> set (requestTimestamps rl)"
    using ne by (intro Min_in) simp_all
  moreover have "\<not> Min (set (requestTimestamps rl)) > now - 60000"
    using aged by simp
  ultimately have "length (filter (\<lambda>ts. ts > now - 60000) (requestTimestamps rl))
      < length (requestTimestamps rl)"
    by (rule length_filter_less)
  then have "int (length (filter (\<lambda>ts. ts > now - 60000) (requestTimestamps rl))) < R"
    using len by linarith
  then show ?thesis
    using rpm tok
    by (auto simp: canMakeRequest_def Let_def RATE_LIMIT_WINDOW_MS_def
        isRequestRateLimitExceeded_def isTokenRateLimitExceeded_def split: option.splits)
qed

lemma repeated_checks_append:
  "repeated_checks est (xs @ ys) rl
     = repeated_checks est xs rl
       @ repeated_checks est ys (foldl (\<lambda>r now. snd (canMakeRequest now est r)) rl xs)"
  by (induction xs arbitrary: rl) (simp_all add: Let_def)

lemma repeated_checks_full_window:
  assumes "requestsPerMinute rl = Some R"
    and "R \<le> int (length (requestTimestamps rl))"
    and "\<forall>now \<in> set nows. \<forall>ts \<in> set (requestTimestamps rl). now - 60000 < ts"
  shows "repeated_checks est nows rl = replicate (length nows) False
       \<and> requestTimestamps (foldl (\<lambda>r now. snd (canMakeRequest now est r)) rl nows)
           = requestTimestamps rl
       \<and> requestsPerMinute (foldl (\<lambda>r now. snd (canMakeRequest now est r)) rl nows) = Some R
       \<and> tokensPerMinute (foldl (\<lambda>r now. snd (canMakeRequest now est r)) rl nows)
           = tokensPerMinute rl"
  using assms
proof (induction nows arbitrary: rl)
  case Nil
  then show ?case by simp
next
  case (Cons now nows)
  let ?rl' = "snd (canMakeRequest now est rl)"
  have w: "\<forall>ts \<in> set (requestTimestamps rl). now - 60000 < ts"
    using Cons.prems(3) by simp
  have f: "fst (canMakeRequest now est rl) = False"
    and k: "requestTimestamps ?rl' = requestTimestamps rl"
    using canMakeRequest_full_window [OF Cons.prems(1,2) w] by simp_all
  have "repeated_checks est nows ?rl' = replicate (length nows) False
       \<and> requestTimestamps (foldl (\<lambda>r now. snd (canMakeRequest now est r)) ?rl' nows)
           = requestTimestamps ?rl'
       \<and> requestsPerMinute (foldl (\<lambda>r now. snd (canMakeRequest now est r)) ?rl' nows) = Some R
       \<and> tokensPerMinute (foldl (\<lambda>r now. snd (canMakeRequest now est r)) ?rl' nows)
           = tokensPerMinute ?rl'"
    using Cons.prems by (intro Cons.IH) (simp_all add: k)
  then show ?case
    using f k by (simp add: Let_def)
qed

lemma validateRateLimits_Inr:
  assumes "validateRateLimits (Some (rpm, tpm)) = Inr (rpm', tpm')"
  shows "rpm' = rpm" and "tpm' = tpm"
    and "\<And>n. rpm = Some n \<Longrightarrow> 1 \<le> n" and "\<And>n. tpm = Some n \<Longrightarrow> 1 \<le> n"
  using assms
  by (auto simp: validateRateLimits_def split: if_splits option.splits)

text \<open>
  Claim C6.  Let validation accept the request limit \<open>R\<close>, let the window hold \<open>R\<close>
  recorded request timestamps, and let the token check be out of play (no token limit, or
  an estimate of 0).  Admission checks made at any clock readings at which the earliest
  recorded timestamp is still inside the 60000 ms window (so that none has aged out) all
  answer false; a following check made once the earliest timestamp has left the window
  (\<open>timestamp \<le> now - 60000\<close>) answers true.
\<close>

theorem C6_window_full_until_earliest_ages_out:
  assumes valid: "validateRateLimits (Some (Some R, tpm))
                    = Inr (requestsPerMinute rl, tokensPerMinute rl)"
    and full: "int (length (requestTimestamps rl)) = R"
    and no_tokens: "tokensPerMinute rl = None \<or> est = 0"
    and inside: "\<forall>now \<in> set nows. now - 60000 < Min (set (requestTimestamps rl))"
    and aged: "Min (set (requestTimestamps rl)) \<le> later - 60000"
  shows "repeated_checks est (nows @ [later]) rl = replicate (length nows) False @ [True]"
proof -
  let ?step = "\<lambda>r now. snd (canMakeRequest now est r)"
  let ?rl' = "foldl ?step rl nows"
  have rpm: "requestsPerMinute rl = Some R" and R1: "1 \<le> R"
    using validateRateLimits_Inr(1,3) [OF valid] by simp_all
  have ne: "requestTimestamps rl \<noteq> []"
    using full R1 by auto
  have len: "R \<le> int (length (requestTimestamps rl))"
    using full by simp
  have all_inside:
    "\<forall>now \<in> set nows. \<forall>ts \<in> set (requestTimestamps rl). now - 60000 < ts"
  proof (intro ballI)
    fix now ts
    assume "now \<in> set nows" and ts: "ts \<in> set (requestTimestamps rl)"
    then have "now - 60000 < Min (set (requestTimestamps rl))"
      using inside by blast
    also have "Min (set (requestTimestamps rl)) \<le> ts"
      using ts by (intro Min_le) simp_all
    finally show "now - 60000 < ts" .
  qed
  note fw = repeated_checks_full_window [OF rpm len all_inside, of est]
  have before: "repeated_checks est nows rl = replicate (length nows) False"
    and same: "requestTimestamps ?rl' = requestTimestamps rl"
    and rpm': "requestsPerMinute ?rl' = Some R"
    and tpm': "tokensPerMinute ?rl' = tokensPerMinute rl"
    using fw by simp_all
  have "fst (canMakeRequest later est ?rl') = True"
  proof (rule canMakeRequest_after_ageing [OF rpm'])
    show "int (length (requestTimestamps ?rl')) \<le> R" using same full by simp
    show "requestTimestamps ?rl' \<noteq> []" using same ne by simp
    show "Min (set (requestTimestamps ?rl')) \<le> later - 60000" using same aged by simp
    show "tokensPerMinute ?rl' = None \<or> est = 0" using tpm' no_tokens by simp
  qed
  then have "repeated_checks est [later] ?rl' = [True]"
    by (simp add: Let_def)
  then show ?thesis
    unfolding repeated_checks_append before by simp
qed

theorem C6_window_full_until_earliest_ages_out_witness:
  "repeated_checks 0 [1500, 2500, 60999, 61000]
     (recordRequest 1500 None (recordRequest 1000 None (new_RateLimitManager (Some 2, None))))
   = [False, False, False, True]"
proof -
  let ?rl = "recordRequest 1500 None (recordRequest 1000 None (new_RateLimitManager (Some 2, None)))"
  have ts: "requestTimestamps ?rl = [1000, 1500]"
    and rpm: "requestsPerMinute ?rl = Some 2" and tpm: "tokensPerMinute ?rl = None"
    by (simp_all add: recordRequest_def new_RateLimitManager_def Let_def)
  have valid: "validateRateLimits (Some (Some 2, None))
                 = Inr (requestsPerMinute ?rl, tokensPerMinute ?rl)"
    unfolding rpm tpm by (simp add: validateRateLimits_def)
  have full: "int (length (requestTimestamps ?rl)) = 2"
    unfolding ts by simp
  have no_tokens: "tokensPerMinute ?rl = None \<or> (0::int) = 0" by simp
  have inside: "\<forall>now \<in> set [1500, 2500, 60999]. now - 60000 < Min (set (requestTimestamps ?rl))"
    unfolding ts by simp
  have aged: "Min (set (requestTimestamps ?rl)) \<le> 61000 - 60000"
    unfolding ts by simp
  show ?thesis
    using C6_window_full_until_earliest_ages_out [OF valid full no_tokens inside aged]
    by simp
qed

section \<open>Retry engine\<close>

lemma Math_random_fields [simp]:
  "clock (snd (Math_random w)) = clock w"
  "calls (snd (Math_random w)) = calls w"
  "sleeps (snd (Math_random w)) = sleeps w"
  "upstream (snd (Math_random w)) = upstream w"
  "upstream_stream (snd (Math_random w)) = upstream_stream w"
  "rnd (snd (Math_random w)) = rnd w"
  by (simp_all add: Math_random_def)

lemma sleep_fields [simp]:
  "calls (sleep d w) = calls w"
  "upstream (sleep d w) = upstream w"
  "upstream_stream (sleep d w) = upstream_stream w"
  "rnd (sleep d w) = rnd w"
  "rnd_next (sleep d w) = rnd_next w"
  "clock (sleep d w) = clock w + timer_delay d"
  "sleeps (sleep d w) = sleeps w @ [d]"
  by (simp_all add: sleep_def)

lemma timer_delay_pos: "1 \<le> timer_delay d"
  by (simp add: timer_delay_def)


text \<open>
  Claim C7.  If the first invocation of the attempt function throws an error that
  \<open>isRetriableError\<close> classifies as not retriable, then for every \<open>maxAttempts \<ge> 1\<close> (retry
  enabled or not) \<open>executeWithRetry\<close> returns the error handler applied to that error, in
  the very state the first invocation left: no second invocation and no sleep happen.
\<close>

theorem C7_terminal_error_single_attempt:
  assumes "1 \<le> maxAttempts m"
    and "fn w = Some (Inl e, w')"
    and "\<not> isRetriableError e"
  shows "executeWithRetry m fn onError w = Some (onError e, w')"
  using assms
  by (simp add: executeWithRetry_def retry_loop.simps [of m fn onError 0])

theorem C7_terminal_error_single_attempt_witness:
  "executeWithRetry \<lparr>enabled = True, maxAttempts = 3, baseDelay = 100, maxDelay = 1000\<rparr>
     (\<lambda>w. Some (Inl (ErrorInstance ''401 Incorrect API key provided'' (Some (JNumber 401)) None),
                 w\<lparr>calls := Suc (calls w)\<rparr>))
     (\<lambda>e. Inr (getErrorMessage e))
     \<lparr>clock = 0, rnd = (\<lambda>_. 0), rnd_next = 0, sleeps = [], calls = 0,
      upstream = (\<lambda>_. Reply 0 (Inl js_undefined)),
      upstream_stream = (\<lambda>_. StreamReply 0 (Inl js_undefined))\<rparr>
   = Some (Inr ''401 Incorrect API key provided'',
       \<lparr>clock = 0, rnd = (\<lambda>_. 0), rnd_next = 0, sleeps = [], calls = 1,
        upstream = (\<lambda>_. Reply 0 (Inl js_undefined)),
        upstream_stream = (\<lambda>_. StreamReply 0 (Inl js_undefined))\<rparr>)"
proof -
  let ?m = "\<lparr>enabled = True, maxAttempts = 3, baseDelay = 100, maxDelay = 1000\<rparr>"
  let ?e = "ErrorInstance ''401 Incorrect API key provided'' (Some (JNumber 401)) None"
  let ?fn = "\<lambda>w::world. Some (Inl ?e :: thrown + string, w\<lparr>calls := Suc (calls w)\<rparr>)"
  let ?w = "\<lparr>clock = 0, rnd = (\<lambda>_. 0), rnd_next = 0, sleeps = [], calls = 0,
      upstream = (\<lambda>_. Reply 0 (Inl js_undefined)),
      upstream_stream = (\<lambda>_. StreamReply 0 (Inl js_undefined))\<rparr>"
  have h1: "1 \<le> maxAttempts ?m" by simp
  have h2: "?fn ?w = Some (Inl ?e, ?w\<lparr>calls := Suc (calls ?w)\<rparr>)" by simp
  have h3: "\<not> isRetriableError ?e"
    by (simp add: isRetriableError_def getErrorMessage_def getErrorCode_def error_constants)
  show ?thesis
    using C7_terminal_error_single_attempt [of ?m ?fn ?w ?e _ "\<lambda>e. Inr (getErrorMessage e)",
        OF h1 h2 h3]
    by (simp add: getErrorMessage_def)
qed




section \<open>The admission wait\<close>

lemma waitForRateLimit_frame:
  assumes "\<And>d w. f (sleep d w) = f w"
    and "waitForRateLimit fuel est rl w = Some (rl', w')"
  shows "f w' = f w"
  using assms(2)
proof (induction fuel arbitrary: rl w)
  case 0
  then show ?case by simp
next
  case (Suc fuel)
  show ?case
  proof (cases "fst (canMakeRequest (clock w) est rl)")
    case True
    then show ?thesis using Suc.prems by (simp add: Let_def)
  next
    case False
    then have "waitForRateLimit fuel est (snd (canMakeRequest (clock w) est rl))
                 (sleep THROTTLE_CHECK_INTERVAL_MS w) = Some (rl', w')"
      using Suc.prems by (simp add: Let_def)
    then have "f w' = f (sleep THROTTLE_CHECK_INTERVAL_MS w)"
      by (rule Suc.IH)
    then show ?thesis by (simp add: assms(1))
  qed
qed

lemma poll_interval [simp]: "timer_delay THROTTLE_CHECK_INTERVAL_MS = 1000"
  by (simp add: timer_delay_def THROTTLE_CHECK_INTERVAL_MS_def)

lemma waitForRateLimit_result:
  assumes "waitForRateLimit fuel est rl w = Some (rl', w')"
  shows "clock w \<le> clock w'
       \<and> requestTimestamps rl' = filter (\<lambda>ts. ts > clock w' - 60000) (requestTimestamps rl)
       \<and> tokenTimestamps rl' = filter (\<lambda>t. fst t > clock w' - 60000) (tokenTimestamps rl)
       \<and> requestsPerMinute rl' = requestsPerMinute rl
       \<and> tokensPerMinute rl' = tokensPerMinute rl"
  using assms
proof (induction fuel arbitrary: rl w)
  case 0
  then show ?case by simp
next
  case (Suc fuel)
  let ?res = "canMakeRequest (clock w) est rl"
  show ?case
  proof (cases "fst ?res")
    case True
    then have "rl' = snd ?res" "w' = w" using Suc.prems by (auto simp: Let_def)
    then show ?thesis
      by (simp add: canMakeRequest_requestTimestamps canMakeRequest_tokenTimestamps)
  next
    case False
    let ?w1 = "sleep THROTTLE_CHECK_INTERVAL_MS w"
    have rec: "waitForRateLimit fuel est (snd ?res) ?w1 = Some (rl', w')"
      using False Suc.prems by (simp add: Let_def)
    note ih = Suc.IH [OF rec]
    have le: "clock w \<le> clock w'" using ih by simp
    have r: "requestTimestamps rl' = filter (\<lambda>ts. ts > clock w' - 60000) (requestTimestamps rl)"
      using ih le by (auto simp: canMakeRequest_requestTimestamps intro: filter_cong)
    have t: "tokenTimestamps rl' = filter (\<lambda>t. fst t > clock w' - 60000) (tokenTimestamps rl)"
      using ih le by (auto simp: canMakeRequest_tokenTimestamps intro: filter_cong)
    show ?thesis using ih le r t by simp
  qed
qed

lemma canMakeRequest_all_aged:
  assumes "\<forall>ts \<in> set (requestTimestamps rl). ts \<le> now - 60000"
    and "\<forall>t \<in> set (tokenTimestamps rl). fst t \<le> now - 60000"
    and "case requestsPerMinute rl of None \<Rightarrow> True | Some n \<Rightarrow> 1 \<le> n"
    and "case tokensPerMinute rl of None \<Rightarrow> True | Some n \<Rightarrow> est \<le> n"
  shows "fst (canMakeRequest now est rl)"
proof -
  have r: "filter (\<lambda>ts. ts > now - 60000) (requestTimestamps rl) = []"
    using assms(1) by (auto simp: filter_empty_conv)
  have t: "filter (\<lambda>t. fst t > now - 60000) (tokenTimestamps rl) = []"
    using assms(2) by (auto simp: filter_empty_conv)
  show ?thesis
    using assms(3,4)
    by (auto simp: canMakeRequest_def Let_def RATE_LIMIT_WINDOW_MS_def r t
        isRequestRateLimitExceeded_def isTokenRateLimitExceeded_def split: option.splits)
qed

lemma waitForRateLimit_returns:
  assumes "\<forall>ts \<in> set (requestTimestamps rl). ts \<le> B"
    and "\<forall>t \<in> set (tokenTimestamps rl). fst t \<le> B"
    and "case requestsPerMinute rl of None \<Rightarrow> True | Some n \<Rightarrow> 1 \<le> n"
    and "case tokensPerMinute rl of None \<Rightarrow> True | Some n \<Rightarrow> est \<le> n"
    and "1 \<le> fuel" and "B + 61000 - clock w \<le> int fuel * 1000"
  shows "\<exists>rl' w'. waitForRateLimit fuel est rl w = Some (rl', w')"
  using assms
proof (induction fuel arbitrary: rl w)
  case 0
  then show ?case by simp
next
  case (Suc fuel)
  let ?res = "canMakeRequest (clock w) est rl"
  show ?case
  proof (cases "fst ?res")
    case True
    then show ?thesis by (simp add: Let_def)
  next
    case False
    have young: "clock w - 60000 < B"
    proof (rule ccontr)
      assume "\<not> clock w - 60000 < B"
      then have "\<forall>ts \<in> set (requestTimestamps rl). ts \<le> clock w - 60000"
        and "\<forall>t \<in> set (tokenTimestamps rl). fst t \<le> clock w - 60000"
        using Suc.prems(1,2) by force+
      then have "fst ?res"
        using Suc.prems(3,4) by (rule canMakeRequest_all_aged)
      then show False using False by simp
    qed
    let ?w1 = "sleep THROTTLE_CHECK_INTERVAL_MS w"
    have "\<exists>rl' w'. waitForRateLimit fuel est (snd ?res) ?w1 = Some (rl', w')"
    proof (rule Suc.IH)
      show "\<forall>ts \<in> set (requestTimestamps (snd ?res)). ts \<le> B"
        using Suc.prems(1) by (simp add: canMakeRequest_requestTimestamps)
      show "\<forall>t \<in> set (tokenTimestamps (snd ?res)). fst t \<le> B"
        using Suc.prems(2) by (simp add: canMakeRequest_tokenTimestamps)
      show "case requestsPerMinute (snd ?res) of None \<Rightarrow> True | Some n \<Rightarrow> 1 \<le> n"
        using Suc.prems(3) by simp
      show "case tokensPerMinute (snd ?res) of None \<Rightarrow> True | Some n \<Rightarrow> est \<le> n"
        using Suc.prems(4) by simp
      show "1 \<le> fuel" using young Suc.prems(6) by simp
      show "B + 61000 - clock ?w1 \<le> int fuel * 1000"
        using Suc.prems(6) by (simp add: sleep_fields)
    qed
    then show ?thesis using False by (simp add: Let_def)
  qed
qed

section \<open>Later states of a client\<close>

lemma estimateTokens_depends:
  assumes "defaultSystemMessage c' = defaultSystemMessage c"
    and "defaultMaxTokens c' = defaultMaxTokens c"
  shows "estimateTokens c' inp = estimateTokens c inp"
  unfolding estimateTokens_def assms ..

lemma advances_refl: "advances c c"
  by (simp add: advances_def list_all_iff)

lemma advances_trans:
  assumes "advances a b" and "advances b c"
  shows "advances a c"
  using assms unfolding advances_def list_all_iff
  by (auto; fastforce)

lemma client_ready_advances:
  assumes "client_ready inp c" and "advances c c'"
  shows "client_ready inp c'"
proof -
  have e: "estimateTokens c' inp = estimateTokens c inp"
    using assms(2) by (intro estimateTokens_depends) (simp_all add: advances_def)
  show ?thesis
    using assms unfolding client_ready_def advances_def list_all_iff e
    by (auto; fastforce)
qed

lemma timer_delay_nonneg [simp]: "0 \<le> timer_delay d"
  by (simp add: timer_delay_def)

lemma throttle_advances:
  "advances c ((snd (throttle t c))\<lparr>throttleManager := fst (throttle t c)\<rparr>)"
  by (auto simp: advances_def throttle_def Let_def sleep_def Math_random_def list_all_iff)

lemma throttle_rateLimitManager: "rateLimitManager (snd (throttle t c)) = rateLimitManager c"
  by (simp add: throttle_def Let_def sleep_def Math_random_def)

lemma throttle_calls: "calls (snd (throttle t w)) = calls w"
  by (simp add: throttle_def Let_def sleep_def Math_random_def)

lemma recordRequest_fields:
  "requestTimestamps (recordRequest now x rl) = requestTimestamps rl @ [now]"
  "set (tokenTimestamps (recordRequest now x rl)) \<subseteq> set (tokenTimestamps rl) \<union> {t. fst t = now}"
  "requestsPerMinute (recordRequest now x rl) = requestsPerMinute rl"
  "tokensPerMinute (recordRequest now x rl) = tokensPerMinute rl"
  by (auto simp: recordRequest_def Let_def)

lemma wait_record_advances:
  assumes "waitForRateLimit fuel est (rateLimitManager c) c = Some (rl, c2)"
  shows "advances c (c2\<lparr>rateLimitManager := recordRequest (clock c2) x rl\<rparr>)"
    and "calls c2 = calls c"
proof -
  note res = waitForRateLimit_result [OF assms]
  have fr: "retryManager c2 = retryManager c" "defaultSystemMessage c2 = defaultSystemMessage c"
    "defaultMaxTokens c2 = defaultMaxTokens c" "upstream c2 = upstream c"
    "upstream_stream c2 = upstream_stream c"
    by (rule waitForRateLimit_frame [OF _ assms], simp add: sleep_def)+
  show "calls c2 = calls c"
    by (rule waitForRateLimit_frame [OF _ assms]) (simp add: sleep_def)
  have tok: "\<forall>t \<in> set (tokenTimestamps (recordRequest (clock c2) x rl)).
      t \<in> set (tokenTimestamps (rateLimitManager c)) \<or> fst t \<le> clock c2"
    using recordRequest_fields(2) [of "clock c2" x rl] res by auto
  show "advances c (c2\<lparr>rateLimitManager := recordRequest (clock c2) x rl\<rparr>)"
    using res fr tok
    by (auto simp: advances_def list_all_iff recordRequest_fields)
qed

lemma prompt_request_advances: "advances c (snd (prompt_request inp c))"
proof -
  have tok: "\<And>now x rl t. t \<in> set (tokenTimestamps (recordRequest now x rl))
      \<Longrightarrow> t \<in> set (tokenTimestamps rl) \<or> fst t = now"
    using recordRequest_fields(2) by fastforce
  show ?thesis
    by (auto simp: advances_def prompt_request_def Let_def list_all_iff recordRequest_fields
        split: sum.splits dest!: tok)
qed

lemma stream_request_advances: "advances c (snd (stream_request inp onChunk c))"
proof -
  have tok: "\<And>now x rl t. t \<in> set (tokenTimestamps (recordRequest now x rl))
      \<Longrightarrow> t \<in> set (tokenTimestamps rl) \<or> fst t = now"
    using recordRequest_fields(2) by fastforce
  show ?thesis
    by (auto simp: advances_def stream_request_def Let_def list_all_iff recordRequest_fields
        split: sum.splits option.splits dest!: tok)
qed

lemma pause_advances: "advances c (sleep d (snd (Math_random c)))"
  by (auto simp: advances_def sleep_def Math_random_def list_all_iff)

section \<open>Every attempt returns, and so does the retry engine\<close>

lemma executeWithRateLimiting_returns:
  assumes ready: "client_ready inp c" and fuel: "61 \<le> fuel"
  shows "\<exists>c2. executeWithRateLimiting fuel body (estimateTokens c inp) c = Some (body c2)
           \<and> advances c c2 \<and> calls c2 = calls c
           \<and> requestTimestamps (rateLimitManager c2)
               = filter (\<lambda>ts. ts > clock c2 - 60000) (requestTimestamps (rateLimitManager c))
                 @ [clock c2]"
proof -
  let ?tw = "throttle (throttleManager c) c"
  let ?c1 = "(snd ?tw)\<lparr>throttleManager := fst ?tw\<rparr>"
  let ?est = "estimateTokens c inp"
  have a1: "advances c ?c1" by (rule throttle_advances)
  have r1: "client_ready inp ?c1" by (rule client_ready_advances [OF ready a1])
  have e1: "estimateTokens ?c1 inp = ?est"
    using a1 by (intro estimateTokens_depends) (simp_all add: advances_def)
  have "\<exists>rl w'. waitForRateLimit fuel ?est (rateLimitManager ?c1) ?c1 = Some (rl, w')"
  proof (rule waitForRateLimit_returns [where B = "clock ?c1"])
    show "\<forall>ts \<in> set (requestTimestamps (rateLimitManager ?c1)). ts \<le> clock ?c1"
      using r1 by (simp add: client_ready_def list_all_iff)
    show "\<forall>t \<in> set (tokenTimestamps (rateLimitManager ?c1)). fst t \<le> clock ?c1"
      using r1 by (simp add: client_ready_def list_all_iff)
    show "case requestsPerMinute (rateLimitManager ?c1) of None \<Rightarrow> True | Some n \<Rightarrow> 1 \<le> n"
      using r1 by (simp add: client_ready_def)
    show "case tokensPerMinute (rateLimitManager ?c1) of None \<Rightarrow> True | Some n \<Rightarrow> ?est \<le> n"
      using r1 unfolding client_ready_def e1 by simp
    show "1 \<le> fuel" using fuel by simp
    show "clock ?c1 + 61000 - clock ?c1 \<le> int fuel * 1000" using fuel by simp
  qed
  then obtain rl c2 where w: "waitForRateLimit fuel ?est (rateLimitManager ?c1) ?c1 = Some (rl, c2)"
    by blast
  let ?c3 = "c2\<lparr>rateLimitManager := recordRequest (clock c2) (Some ?est) rl\<rparr>"
  have a3: "advances ?c1 ?c3" and k: "calls c2 = calls ?c1"
    using wait_record_advances [OF w] by simp_all
  have "executeWithRateLimiting fuel body ?est c = Some (body ?c3)"
    using w by (simp add: executeWithRateLimiting_def Let_def)
  moreover have "advances c ?c3" by (rule advances_trans [OF a1 a3])
  moreover have "calls ?c3 = calls c" using k by (simp add: throttle_calls)
  moreover have "requestTimestamps (rateLimitManager ?c3)
      = filter (\<lambda>ts. ts > clock ?c3 - 60000) (requestTimestamps (rateLimitManager c))
        @ [clock ?c3]"
    using waitForRateLimit_result [OF w]
    by (simp add: recordRequest_fields throttle_rateLimitManager)
  ultimately show ?thesis by blast
qed

lemma retry_loop_returns:
  assumes step: "\<And>w. P w \<Longrightarrow> \<exists>r w'. fn w = Some (r, w') \<and> P w' \<and> (\<forall>v. r = Inr v \<longrightarrow> Q v)"
    and pause: "\<And>w d. P w \<Longrightarrow> P (sleep d (snd (Math_random w)))"
    and handler: "\<And>e. \<exists>v. onError e = Inr v \<and> Q v"
    and start: "P w"
  shows "\<exists>v w'. retry_loop m fn onError a prev w = Some (Inr v, w') \<and> P w' \<and> Q v"
  using start
proof (induction "nat (maxAttempts m - a)" arbitrary: a prev w)
  case 0
  then have "\<not> a < maxAttempts m" by simp
  then have "retry_loop m fn onError a prev w = Some (onError prev, w)"
    by (subst retry_loop.simps) simp
  then show ?case using handler [of prev] "0.prems" by auto
next
  case (Suc n)
  then have lt: "a < maxAttempts m" by simp
  obtain r w1 where f: "fn w = Some (r, w1)" and P1: "P w1" and q: "\<forall>v. r = Inr v \<longrightarrow> Q v"
    using step [OF Suc.prems] by blast
  show ?case
  proof (cases r)
    case (Inr v)
    then have "retry_loop m fn onError a prev w = Some (Inr v, w1)"
      using f lt by (subst retry_loop.simps) simp
    then show ?thesis using P1 q Inr by auto
  next
    case (Inl e)
    show ?thesis
    proof (cases "isRetriableError e")
      case False
      then have "retry_loop m fn onError a prev w = Some (onError e, w1)"
        using f lt Inl by (subst retry_loop.simps) simp
      then show ?thesis using handler [of e] P1 by auto
    next
      case True
      have n: "n = nat (maxAttempts m - (a + 1))" using Suc.hyps(2) by simp
      show ?thesis
      proof (cases "a < maxAttempts m - 1")
        case True
        let ?w2 = "sleep (calculateDelay m (nat a) (fst (Math_random w1))) (snd (Math_random w1))"
        have "retry_loop m fn onError a prev w = retry_loop m fn onError (a + 1) e ?w2"
          using f lt Inl \<open>isRetriableError e\<close> True
          by (subst retry_loop.simps) (simp add: Let_def)
        moreover have "P ?w2" by (rule pause [OF P1])
        ultimately show ?thesis using Suc.hyps(1) [OF n] by simp
      next
        case False
        have "retry_loop m fn onError a prev w = retry_loop m fn onError (a + 1) e w1"
          using f lt Inl \<open>isRetriableError e\<close> False
          by (subst retry_loop.simps) simp
        then show ?thesis using Suc.hyps(1) [OF n P1] by simp
      qed
    qed
  qed
qed

lemma executeWithRetry_returns:
  assumes step: "\<And>w. P w \<Longrightarrow> \<exists>r w'. fn w = Some (r, w') \<and> P w' \<and> (\<forall>v. r = Inr v \<longrightarrow> Q v)"
    and pause: "\<And>w d. P w \<Longrightarrow> P (sleep d (snd (Math_random w)))"
    and handler: "\<And>e. \<exists>v. onError e = Inr v \<and> Q v"
    and start: "P w"
  shows "\<exists>v w'. executeWithRetry m fn onError w = Some (Inr v, w') \<and> P w' \<and> Q v"
proof (cases "enabled m")
  case True
  then show ?thesis
    using retry_loop_returns [of P fn Q onError w m 0 js_undefined, OF step pause handler start]
    by (simp add: executeWithRetry_def)
next
  case False
  obtain r w1 where f: "fn w = Some (r, w1)" and P1: "P w1" and q: "\<forall>v. r = Inr v \<longrightarrow> Q v"
    using step [OF start] by blast
  show ?thesis
  proof (cases r)
    case (Inr v)
    then show ?thesis using False f P1 q by (simp add: executeWithRetry_def)
  next
    case (Inl e)
    then show ?thesis using False f P1 handler [of e] by (auto simp: executeWithRetry_def)
  qed
qed

lemma buildErrorResponse_status: "is_error_status (status (buildErrorResponse e))"
  by (cases e) (simp_all add: buildErrorResponse_def is_error_status_def)

lemma buildErrorResponse_not_success: "status (buildErrorResponse e) \<noteq> SUCCESS"
  using buildErrorResponse_status [of e] by (auto simp: is_error_status_def)

lemma buildErrorResponse_error: "error (buildErrorResponse e) = Some (error_text e)"
  by (cases e) (simp_all add: buildErrorResponse_def error_text_def error_constants)

section \<open>Failures are returned, not thrown\<close>

lemma attempt_guard_Some:
  "attempt_guard (Some (r, c)) =
     Some (case r of Inr v \<Rightarrow> Inr v
           | Inl e \<Rightarrow> if isRetriableError e then Inl e else Inr (buildErrorResponse e), c)"
  by (simp add: attempt_guard_def split: sum.splits)

lemma retry_loop_last_attempt:
  assumes step: "\<And>w. P w \<Longrightarrow> \<exists>r w'. fn w = Some (r, w')
                    \<and> (\<forall>e d. r = Inl e \<longrightarrow> isRetriableError e
                           \<longrightarrow> P (sleep d (snd (Math_random w'))))"
    and start: "P w" and more: "a < maxAttempts m"
  shows "\<exists>wk r w'. P wk \<and> fn wk = Some (r, w')
           \<and> retry_loop m fn onError a prev w
               = Some ((case r of Inl e \<Rightarrow> onError e | Inr v \<Rightarrow> Inr v), w')"
  using start more
proof (induction "nat (maxAttempts m - a)" arbitrary: a prev w)
  case 0
  then show ?case by simp
next
  case (Suc n)
  obtain r w1 where f: "fn w = Some (r, w1)"
    and nxt: "\<forall>e d. r = Inl e \<longrightarrow> isRetriableError e \<longrightarrow> P (sleep d (snd (Math_random w1)))"
    using step [OF Suc.prems(1)] by blast
  have lt: "a < maxAttempts m" by (rule Suc.prems(2))
  show ?case
  proof (cases r)
    case (Inr v)
    then have "retry_loop m fn onError a prev w = Some (Inr v, w1)"
      using f lt by (subst retry_loop.simps) simp
    then show ?thesis using Suc.prems(1) f Inr by force
  next
    case (Inl e)
    show ?thesis
    proof (cases "isRetriableError e")
      case False
      then have "retry_loop m fn onError a prev w = Some (onError e, w1)"
        using f lt Inl by (subst retry_loop.simps) simp
      then show ?thesis using Suc.prems(1) f Inl by force
    next
      case True
      show ?thesis
      proof (cases "a < maxAttempts m - 1")
        case True
        let ?w2 = "sleep (calculateDelay m (nat a) (fst (Math_random w1))) (snd (Math_random w1))"
        have "retry_loop m fn onError a prev w = retry_loop m fn onError (a + 1) e ?w2"
          using f lt Inl \<open>isRetriableError e\<close> True
          by (subst retry_loop.simps) (simp add: Let_def)
        moreover have "P ?w2" using nxt Inl \<open>isRetriableError e\<close> by blast
        moreover have "n = nat (maxAttempts m - (a + 1))" using Suc.hyps(2) by simp
        moreover have "a + 1 < maxAttempts m" using True by simp
        ultimately show ?thesis using Suc.hyps(1) [of "a + 1" ?w2 e] by simp
      next
        case False
        have "retry_loop m fn onError a prev w = retry_loop m fn onError (a + 1) e w1"
          using f lt Inl \<open>isRetriableError e\<close> False
          by (subst retry_loop.simps) simp
        also have "\<dots> = Some (onError e, w1)"
          using False by (subst retry_loop.simps) simp
        finally show ?thesis using Suc.prems(1) f Inl by force
      qed
    qed
  qed
qed

lemma executeWithRetry_last_attempt:
  assumes step: "\<And>w. P w \<Longrightarrow> \<exists>r w'. fn w = Some (r, w')
                    \<and> (\<forall>e d. r = Inl e \<longrightarrow> isRetriableError e
                           \<longrightarrow> P (sleep d (snd (Math_random w'))))"
    and start: "P w" and some: "1 \<le> maxAttempts m"
  shows "\<exists>wk r w'. P wk \<and> fn wk = Some (r, w')
           \<and> executeWithRetry m fn onError w
               = Some ((case r of Inl e \<Rightarrow> onError e | Inr v \<Rightarrow> Inr v), w')"
proof (cases "enabled m")
  case True
  have "0 < maxAttempts m" using some by simp
  from retry_loop_last_attempt [of P fn w 0 m onError js_undefined, OF step start this]
  show ?thesis using True by (simp add: executeWithRetry_def)
next
  case False
  obtain r w1 where f: "fn w = Some (r, w1)" using step [OF start] by blast
  have "executeWithRetry m fn onError w
          = Some ((case r of Inl e \<Rightarrow> onError e | Inr v \<Rightarrow> Inr v), w1)"
    using False f by (simp add: executeWithRetry_def split: sum.splits)
  then show ?thesis using start f by blast
qed


lemma pipeline_last_attempt:
  fixes body :: "client \<Rightarrow> (thrown + PromptResponse) \<times> client"
    and out :: "nat \<Rightarrow> thrown + PromptResponse"
  assumes body_adv: "\<And>c. advances c (snd (body c))"
    and body_val: "\<And>c. advances c0 c \<Longrightarrow> fst (body c) = out (calls c)"
    and body_calls: "\<And>c. calls (snd (body c)) = Suc (calls c)"
    and ready: "client_ready inp c0" and fuel: "61 \<le> fuel"
  shows "\<exists>c' n. executeWithRetry (retryManager c0)
            (\<lambda>c'. attempt_guard
                     (executeWithRateLimiting fuel body (estimateTokens c' inp) c'))
            (\<lambda>err. Inr (buildErrorResponse err)) c0
          = Some (Inr (case out (calls c0 + n) of
                         Inl e \<Rightarrow> buildErrorResponse e | Inr v \<Rightarrow> v), c')
        \<and> calls c' = calls c0 + Suc n
        \<and> (\<forall>j<n. \<exists>e. out (calls c0 + j) = Inl e \<and> isRetriableError e)"
proof -
  let ?fn = "\<lambda>c'. attempt_guard (executeWithRateLimiting fuel body (estimateTokens c' inp) c')"
  let ?h = "\<lambda>err. Inr (buildErrorResponse err) :: thrown + PromptResponse"
  let ?g = "\<lambda>x. case x of Inr v \<Rightarrow> Inr v
           | Inl e \<Rightarrow> if isRetriableError e then Inl e else Inr (buildErrorResponse e)"
  let ?P = "\<lambda>w. client_ready inp w \<and> advances c0 w \<and> calls c0 \<le> calls w
              \<and> (\<forall>j. calls c0 \<le> j \<and> j < calls w \<longrightarrow> (\<exists>e. out j = Inl e \<and> isRetriableError e))"
  have att: "\<exists>c3. ?fn w = Some (?g (out (calls w)), c3) \<and> advances w c3
               \<and> calls c3 = Suc (calls w)"
    if P: "?P w" for w
  proof -
    obtain c2 where ex: "executeWithRateLimiting fuel body (estimateTokens w inp) w = Some (body c2)"
      and a2: "advances w c2" and k2: "calls c2 = calls w"
      using executeWithRateLimiting_returns [OF _ fuel, of inp w body] P by blast
    have a02: "advances c0 c2" using P a2 by (blast intro: advances_trans)
    obtain r c3 where b: "body c2 = (r, c3)" by (cases "body c2")
    have r: "r = out (calls w)" using body_val [OF a02] b k2 by simp
    have a3: "advances c2 c3" using body_adv [of c2] b by simp
    have k3: "calls c3 = Suc (calls w)" using body_calls [of c2] b k2 by simp
    have "?fn w = Some (?g (out (calls w)), c3)"
      unfolding ex b attempt_guard_Some r ..
    moreover have "advances w c3" using a2 a3 by (rule advances_trans)
    ultimately show ?thesis using k3 by blast
  qed
  have step: "\<exists>r w'. ?fn w = Some (r, w')
      \<and> (\<forall>e d. r = Inl e \<longrightarrow> isRetriableError e \<longrightarrow> ?P (sleep d (snd (Math_random w'))))"
    if P: "?P w" for w
  proof -
    obtain c3 where f: "?fn w = Some (?g (out (calls w)), c3)" and a3: "advances w c3"
      and k3: "calls c3 = Suc (calls w)"
      using att [OF P] by blast
    have "?P (sleep d (snd (Math_random c3)))"
      if r: "?g (out (calls w)) = Inl e" and re: "isRetriableError e" for e d
    proof -
      have oe: "out (calls w) = Inl e"
        using r by (auto split: sum.splits if_splits)
      have ap: "advances w (sleep d (snd (Math_random c3)))"
        using a3 pause_advances [of c3 d] by (rule advances_trans)
      have "client_ready inp (sleep d (snd (Math_random c3)))"
        using P ap by (blast intro: client_ready_advances)
      moreover have "advances c0 (sleep d (snd (Math_random c3)))"
        using P ap by (blast intro: advances_trans)
      moreover have "calls (sleep d (snd (Math_random c3))) = Suc (calls w)"
        using k3 by simp
      moreover have "\<exists>e. out j = Inl e \<and> isRetriableError e"
        if "calls c0 \<le> j" "j < Suc (calls w)" for j
      proof (cases "j = calls w")
        case True
        then show ?thesis using oe re by blast
      next
        case False
        then have "j < calls w" using that(2) by simp
        then show ?thesis using P that(1) by blast
      qed
      ultimately show ?thesis using P by simp
    qed
    then show ?thesis using f by blast
  qed
  have m1: "1 \<le> maxAttempts (retryManager c0)"
    using ready by (simp add: client_ready_def)
  have P0: "?P c0" using ready advances_refl by auto
  obtain wk r w' where Pk: "?P wk" and fk: "?fn wk = Some (r, w')"
    and res: "executeWithRetry (retryManager c0) ?fn ?h c0
                = Some ((case r of Inl e \<Rightarrow> ?h e | Inr v \<Rightarrow> Inr v), w')"
    using executeWithRetry_last_attempt [of ?P ?fn c0 "retryManager c0" ?h, OF step P0 m1]
    by blast
  obtain c3 where f3: "?fn wk = Some (?g (out (calls wk)), c3)" and k3: "calls c3 = Suc (calls wk)"
    using att [OF Pk] by blast
  have r: "r = ?g (out (calls wk))" and w': "w' = c3"
    using fk f3 by simp_all
  define n where "n = calls wk - calls c0"
  have kn: "calls wk = calls c0 + n" using Pk by (simp add: n_def)
  have val: "(case r of Inl e \<Rightarrow> ?h e | Inr v \<Rightarrow> Inr v)
      = Inr (case out (calls c0 + n) of Inl e \<Rightarrow> buildErrorResponse e | Inr v \<Rightarrow> v)"
    unfolding r kn by (simp split: sum.splits)
  have hist: "\<forall>j<n. \<exists>e. out (calls c0 + j) = Inl e \<and> isRetriableError e"
    using Pk kn by simp
  show ?thesis
    using res val hist k3 w' kn by auto
qed

lemma prompt_request_value:
  "fst (prompt_request inp c) = call_outcome inp (upstream c (calls c))"
  "calls (snd (prompt_request inp c)) = Suc (calls c)"
  by (simp_all add: prompt_request_def call_outcome_def buildPromptResponse_def Let_def
      split: sum.splits)

lemma stream_request_value:
  "fst (stream_request inp onChunk c)
     = stream_call_outcome inp onChunk (upstream_stream c (calls c))"
  "calls (snd (stream_request inp onChunk c)) = Suc (calls c)"
  by (simp_all add: stream_request_def stream_call_outcome_def Let_def
      split: sum.splits option.splits)

lemma call_outcome_Inr:
  assumes "call_outcome inp rep = Inr v"
  shows "status v = SUCCESS \<and> error v = None"
  using assms by (auto simp: call_outcome_def split: sum.splits)

lemma stream_call_outcome_Inr:
  assumes "stream_call_outcome inp onChunk rep = Inr v"
  shows "status v = SUCCESS \<and> error v = None"
  using assms by (auto simp: stream_call_outcome_def split: sum.splits option.splits)

lemmas scenario_defs =
  default_client_def rejected_client_def rejected_first_client_def rejected_first_script_def
  answering_client_def steady_script_def broken_stream_client_def broken_stream_def
  too_long_client_def too_long_script_def no_stream_def strict_input_def plain_input_def
  completion_ok_def hello_chunk_def name_required_schema_def quiet_onChunk_def
  new_RateLimitManager_def new_ThrottleManager_def

lemma ready_clients:
  "client_ready plain_input rejected_client"
  "client_ready strict_input answering_client"
  "client_ready plain_input broken_stream_client"
  "client_ready plain_input rejected_first_client"
  "client_ready plain_input answering_client"
  by (simp_all add: client_ready_def scenario_defs estimateTokens_def CHARS_PER_TOKEN_def)

lemma error_statuses:
  "status (buildErrorResponse error_401) = API_ERROR"
  "status (buildErrorResponse network_error) = NETWORK_ERROR"
  "status (buildErrorResponse
     (ErrorInstance ''OpenAI response does not match expected schema: name: Required'' None None))
   = VALIDATION_ERROR"
  by (simp_all add: buildErrorResponse_def error_401_def network_error_def error_constants)

lemma error_401_terminal: "\<not> isRetriableError error_401"
  by (simp add: error_401_def isRetriableError_def getErrorMessage_def getErrorCode_def
      error_constants)

text \<open>
  Claim C2.  On a ready client \<open>prompt\<close> and \<open>promptStream\<close> return, and what they return
  is a response, never a thrown value.  The response is decided by the last attempt made;
  every attempt before it failed with a retriable error.  If the last attempt threw - at
  the remote call, while parsing or validating the content, while reading the stream or in
  the chunk callback - the response is \<open>buildErrorResponse\<close> of that very error: its status
  is one of the six failure statuses and its error field is the message of the error.
  If the last attempt threw nothing, the response is the success response it built.
\<close>

theorem C2_failures_are_returned:
  assumes ready: "client_ready inp c" and fuel: "61 \<le> fuel"
  shows "(\<exists>r c' n. prompt fuel inp c = Some (Inr r, c')
            \<and> calls c' = calls c + Suc n
            \<and> (\<forall>j<n. \<exists>e. call_outcome inp (upstream c (calls c + j)) = Inl e
                         \<and> isRetriableError e)
            \<and> (\<forall>e. call_outcome inp (upstream c (calls c + n)) = Inl e
                    \<longrightarrow> r = buildErrorResponse e \<and> is_error_status (status r)
                        \<and> error r = Some (error_text e))
            \<and> (\<forall>v. call_outcome inp (upstream c (calls c + n)) = Inr v
                    \<longrightarrow> r = v \<and> status r = SUCCESS \<and> error r = None))
       \<and> (\<exists>r c' n. promptStream fuel inp onChunk c = Some (Inr r, c')
            \<and> calls c' = calls c + Suc n
            \<and> (\<forall>j<n. \<exists>e. stream_call_outcome inp onChunk (upstream_stream c (calls c + j)) = Inl e
                         \<and> isRetriableError e)
            \<and> (\<forall>e. stream_call_outcome inp onChunk (upstream_stream c (calls c + n)) = Inl e
                    \<longrightarrow> r = buildErrorResponse e \<and> is_error_status (status r)
                        \<and> error r = Some (error_text e))
            \<and> (\<forall>v. stream_call_outcome inp onChunk (upstream_stream c (calls c + n)) = Inr v
                    \<longrightarrow> r = v \<and> status r = SUCCESS \<and> error r = None))"
proof
  let ?out = "\<lambda>i. call_outcome inp (upstream c i)"
  have val: "fst (prompt_request inp c1) = ?out (calls c1)" if "advances c c1" for c1
    using that by (simp add: prompt_request_value advances_def)
  obtain c' n where res: "prompt fuel inp c
        = Some (Inr (case ?out (calls c + n) of Inl e \<Rightarrow> buildErrorResponse e | Inr v \<Rightarrow> v), c')"
    and k: "calls c' = calls c + Suc n"
    and hist: "\<forall>j<n. \<exists>e. ?out (calls c + j) = Inl e \<and> isRetriableError e"
    unfolding prompt_def
    using pipeline_last_attempt [of "prompt_request inp" c ?out inp fuel,
        OF prompt_request_advances val prompt_request_value(2) ready fuel]
    by blast
  show "\<exists>r c' n. prompt fuel inp c = Some (Inr r, c')
            \<and> calls c' = calls c + Suc n
            \<and> (\<forall>j<n. \<exists>e. ?out (calls c + j) = Inl e \<and> isRetriableError e)
            \<and> (\<forall>e. ?out (calls c + n) = Inl e
                    \<longrightarrow> r = buildErrorResponse e \<and> is_error_status (status r)
                        \<and> error r = Some (error_text e))
            \<and> (\<forall>v. ?out (calls c + n) = Inr v
                    \<longrightarrow> r = v \<and> status r = SUCCESS \<and> error r = None)"
    using res k hist buildErrorResponse_status buildErrorResponse_error call_outcome_Inr
    by (intro exI [of _ "case ?out (calls c + n) of Inl e \<Rightarrow> buildErrorResponse e | Inr v \<Rightarrow> v"]
        exI [of _ c'] exI [of _ n]) auto
next
  let ?out = "\<lambda>i. stream_call_outcome inp onChunk (upstream_stream c i)"
  have val: "fst (stream_request inp onChunk c1) = ?out (calls c1)" if "advances c c1" for c1
    using that by (simp add: stream_request_value advances_def)
  obtain c' n where res: "promptStream fuel inp onChunk c
        = Some (Inr (case ?out (calls c + n) of Inl e \<Rightarrow> buildErrorResponse e | Inr v \<Rightarrow> v), c')"
    and k: "calls c' = calls c + Suc n"
    and hist: "\<forall>j<n. \<exists>e. ?out (calls c + j) = Inl e \<and> isRetriableError e"
    unfolding promptStream_def
    using pipeline_last_attempt [of "stream_request inp onChunk" c ?out inp fuel,
        OF stream_request_advances val stream_request_value(2) ready fuel]
    by blast
  show "\<exists>r c' n. promptStream fuel inp onChunk c = Some (Inr r, c')
            \<and> calls c' = calls c + Suc n
            \<and> (\<forall>j<n. \<exists>e. ?out (calls c + j) = Inl e \<and> isRetriableError e)
            \<and> (\<forall>e. ?out (calls c + n) = Inl e
                    \<longrightarrow> r = buildErrorResponse e \<and> is_error_status (status r)
                        \<and> error r = Some (error_text e))
            \<and> (\<forall>v. ?out (calls c + n) = Inr v
                    \<longrightarrow> r = v \<and> status r = SUCCESS \<and> error r = None)"
    using res k hist buildErrorResponse_status buildErrorResponse_error stream_call_outcome_Inr
    by (intro exI [of _ "case ?out (calls c + n) of Inl e \<Rightarrow> buildErrorResponse e | Inr v \<Rightarrow> v"]
        exI [of _ c'] exI [of _ n]) auto
qed

text \<open>
  Runs of the two calls: a 401 on every call, a content that fails the caller's schema, a
  stream that breaks after its first chunk, a 401 followed by answers that are never
  asked for, and an answer on the first call.
\<close>

theorem C2_failures_are_returned_witness:
  "outcome_status (prompt 61 plain_input rejected_client) = Some API_ERROR
 \<and> outcome_status (promptStream 61 plain_input quiet_onChunk rejected_client) = Some API_ERROR
 \<and> outcome_status (prompt 61 strict_input answering_client) = Some VALIDATION_ERROR
 \<and> outcome_status (promptStream 61 plain_input quiet_onChunk broken_stream_client)
     = Some NETWORK_ERROR
 \<and> outcome_status (prompt 61 plain_input rejected_first_client) = Some API_ERROR
 \<and> outcome_calls (prompt 61 plain_input rejected_first_client) = Some 1
 \<and> outcome_status (prompt 61 plain_input answering_client) = Some SUCCESS"
proof -
  have fuel: "(61::nat) \<le> 61" by simp
  have f: "outcome_status (prompt 61 plain_input answering_client) = Some SUCCESS"
  proof -
    let ?v = "buildPromptResponse completion_ok ''Hi there'' None"
    have o: "call_outcome plain_input (upstream answering_client i) = Inr ?v" for i
      by (simp add: call_outcome_def parseAndValidateOutput_def buildPromptResponse_def
          scenario_defs)
    from C2_failures_are_returned [OF ready_clients(5) fuel, of quiet_onChunk]
    obtain r c' where "prompt 61 plain_input answering_client = Some (Inr r, c')"
      and "status r = SUCCESS"
      unfolding o by blast
    then show ?thesis by (simp add: outcome_status_def)
  qed
  have a: "outcome_status (prompt 61 plain_input rejected_client) = Some API_ERROR"
  proof -
    have o: "call_outcome plain_input (upstream rejected_client i) = Inl error_401" for i
      by (simp add: call_outcome_def rejected_client_def)
    from C2_failures_are_returned [OF ready_clients(1) fuel, of quiet_onChunk]
    obtain r c' where "prompt 61 plain_input rejected_client = Some (Inr r, c')"
      and "r = buildErrorResponse error_401"
      unfolding o by blast
    then show ?thesis by (simp add: outcome_status_def error_statuses)
  qed
  have b: "outcome_status (promptStream 61 plain_input quiet_onChunk rejected_client)
             = Some API_ERROR"
  proof -
    have o: "stream_call_outcome plain_input quiet_onChunk (upstream_stream rejected_client i)
               = Inl error_401" for i
      by (simp add: stream_call_outcome_def rejected_client_def)
    from C2_failures_are_returned [OF ready_clients(1) fuel, of quiet_onChunk]
    obtain r c' where "promptStream 61 plain_input quiet_onChunk rejected_client = Some (Inr r, c')"
      and "r = buildErrorResponse error_401"
      unfolding o by blast
    then show ?thesis by (simp add: outcome_status_def error_statuses)
  qed
  have c: "outcome_status (prompt 61 strict_input answering_client) = Some VALIDATION_ERROR"
  proof -
    let ?e = "ErrorInstance ''OpenAI response does not match expected schema: name: Required''
                None None"
    have o: "call_outcome strict_input (upstream answering_client i) = Inl ?e" for i
      by (simp add: call_outcome_def parseAndValidateOutput_def scenario_defs)
    from C2_failures_are_returned [OF ready_clients(2) fuel, of quiet_onChunk]
    obtain r c' where "prompt 61 strict_input answering_client = Some (Inr r, c')"
      and "r = buildErrorResponse ?e"
      unfolding o by blast
    then show ?thesis by (simp add: outcome_status_def error_statuses)
  qed
  have d: "outcome_status (promptStream 61 plain_input quiet_onChunk broken_stream_client)
             = Some NETWORK_ERROR"
  proof -
    have o: "stream_call_outcome plain_input quiet_onChunk (upstream_stream broken_stream_client i)
               = Inl network_error" for i
      by (simp add: stream_call_outcome_def scenario_defs)
    from C2_failures_are_returned [OF ready_clients(3) fuel, of quiet_onChunk]
    obtain r c' where "promptStream 61 plain_input quiet_onChunk broken_stream_client
                         = Some (Inr r, c')"
      and "r = buildErrorResponse network_error"
      unfolding o by blast
    then show ?thesis by (simp add: outcome_status_def error_statuses)
  qed
  have e: "outcome_status (prompt 61 plain_input rejected_first_client) = Some API_ERROR
         \<and> outcome_calls (prompt 61 plain_input rejected_first_client) = Some 1"
  proof -
    have o0: "call_outcome plain_input (upstream rejected_first_client 0) = Inl error_401"
      by (simp add: call_outcome_def scenario_defs)
    have k0: "calls rejected_first_client = 0"
      by (simp add: scenario_defs)
    from C2_failures_are_returned [OF ready_clients(4) fuel, of quiet_onChunk]
    obtain r c' n where p: "prompt 61 plain_input rejected_first_client = Some (Inr r, c')"
      and k: "calls c' = calls rejected_first_client + Suc n"
      and hist: "\<forall>j<n. \<exists>e. call_outcome plain_input
                   (upstream rejected_first_client (calls rejected_first_client + j)) = Inl e
                   \<and> isRetriableError e"
      and last: "\<forall>e. call_outcome plain_input
                   (upstream rejected_first_client (calls rejected_first_client + n)) = Inl e
                   \<longrightarrow> r = buildErrorResponse e \<and> is_error_status (status r)
                       \<and> error r = Some (error_text e)"
      by blast
    have n0: "n = 0"
    proof (rule ccontr)
      assume "n \<noteq> 0"
      then have "0 < n" by simp
      then obtain e where "call_outcome plain_input (upstream rejected_first_client 0) = Inl e"
        and "isRetriableError e"
        using hist k0 by force
      then show False using o0 error_401_terminal by simp
    qed
    have "r = buildErrorResponse error_401"
      using last o0 k0 n0 by simp
    then show ?thesis
      using p k k0 n0 by (simp add: outcome_status_def outcome_calls_def error_statuses)
  qed
  from a b c d e f show ?thesis by blast
qed

section \<open>Evaluating concrete runs\<close>

lemma waitForRateLimit_numeral:
  "waitForRateLimit (numeral k) est rl w =
     (let res = canMakeRequest (clock w) est rl
      in if fst res then Some (snd res, w)
         else waitForRateLimit (pred_numeral k) est (snd res) (sleep THROTTLE_CHECK_INTERVAL_MS w))"
  by (simp add: numeral_eq_Suc)

lemmas run_defs =
  prompt_def executeWithRetry_def attempt_guard_def executeWithRateLimiting_def
  prompt_request_def throttle_def requestDelay_falsy_def canMakeRequest_def
  recordRequest_def isRequestRateLimitExceeded_def isTokenRateLimitExceeded_def
  estimateTokens_def parseAndValidateOutput_def buildPromptResponse_def buildErrorResponse_def
  new_ThrottleManager_def new_RateLimitManager_def
  plain_input_def completion_ok_def
  RATE_LIMIT_WINDOW_MS_def THROTTLE_CHECK_INTERVAL_MS_def CHARS_PER_TOKEN_def
  DEFAULT_ESTIMATED_MAX_TOKENS_def sleep_def Math_random_def timer_delay_def
  calculateDelay_def isRetriableError_def getErrorMessage_def getErrorCode_def
  error_constants Let_def waitForRateLimit_numeral retry_loop.simps

lemma wait_blocked:
  assumes "requestsPerMinute rl = Some R" and "R \<le> int (length (requestTimestamps rl))"
    and "\<forall>ts \<in> set (requestTimestamps rl). clock w + 1000 * int k - 61000 < ts"
    and "\<forall>t \<in> set (tokenTimestamps rl). clock w + 1000 * int k - 61000 < fst t"
  shows "waitForRateLimit (k + n) est rl w
       = waitForRateLimit n est rl
           (w\<lparr>clock := clock w + 1000 * int k, sleeps := sleeps w @ replicate k 1000\<rparr>)"
  using assms(3,4)
proof (induction k arbitrary: w)
  case 0
  then show ?case by simp
next
  case (Suc k)
  let ?res = "canMakeRequest (clock w) est rl"
  have rq: "filter (\<lambda>ts. ts > clock w - 60000) (requestTimestamps rl) = requestTimestamps rl"
    using Suc.prems(1) by (auto simp: filter_id_conv)
  have tk: "filter (\<lambda>t. fst t > clock w - 60000) (tokenTimestamps rl) = tokenTimestamps rl"
    using Suc.prems(2) by (auto simp: filter_id_conv)
  have res: "?res = (False, rl)"
    using assms(1,2)
    by (simp add: canMakeRequest_def Let_def RATE_LIMIT_WINDOW_MS_def rq tk
        isRequestRateLimitExceeded_def)
  let ?w1 = "sleep THROTTLE_CHECK_INTERVAL_MS w"
  have "waitForRateLimit (Suc k + n) est rl w = waitForRateLimit (k + n) est rl ?w1"
    by (simp add: res Let_def)
  also have "\<dots> = waitForRateLimit n est rl
      (?w1\<lparr>clock := clock ?w1 + 1000 * int k, sleeps := sleeps ?w1 @ replicate k 1000\<rparr>)"
    using Suc.prems by (intro Suc.IH) (simp_all add: algebra_simps)
  also have "?w1\<lparr>clock := clock ?w1 + 1000 * int k, sleeps := sleeps ?w1 @ replicate k 1000\<rparr>
      = w\<lparr>clock := clock w + 1000 * int (Suc k), sleeps := sleeps w @ replicate (Suc k) 1000\<rparr>"
    by (simp add: sleep_def THROTTLE_CHECK_INTERVAL_MS_def timer_delay_def algebra_simps)
  finally show ?case .
qed


lemma wait_blocked_61:
  assumes "requestsPerMinute rl = Some R" and "R \<le> int (length (requestTimestamps rl))"
    and "\<forall>ts \<in> set (requestTimestamps rl). clock w - 1000 < ts"
    and "\<forall>t \<in> set (tokenTimestamps rl). clock w - 1000 < fst t"
  shows "waitForRateLimit 61 est rl w
       = waitForRateLimit (Suc 0) est rl
           (w\<lparr>clock := clock w + 60000, sleeps := sleeps w @ replicate 60 1000\<rparr>)"
  using wait_blocked [of rl R w 60 "Suc 0" est] assms by simp

lemmas setup_defs =
  new_OpenAIClientService_def validateApiKey_def validateTemperature_def validateMaxTokens_def
  validateSystemMessage_def OPENAI_API_KEY_PREFIX_def validateRateLimits_def
  validateThrottleSettings_def
  validateRetrySettings_def new_ThrottleManager_def new_RateLimitManager_def
  quiet_world_def default_config_def

lemma scenarioA_client_constructed:
  "new_OpenAIClientService scenarioA_config (quiet_world steady_script) = Inr scenarioA_client"
  by (simp add: setup_defs scenarioA_config_def scenarioA_client_def)

lemma retried_client_constructed:
  "new_OpenAIClientService default_config (quiet_world retried_script) = Inr retried_client"
  by (simp add: setup_defs retried_client_def)

lemma new_client_ready:
  assumes "new_OpenAIClientService config w = Inr c"
    and "case tokensPerMinute (rateLimitManager c) of
           None \<Rightarrow> True | Some n \<Rightarrow> estimateTokens c inp \<le> n"
  shows "client_ready inp c"
proof -
  obtain rl th rt where v: "validateRateLimits (cfg_rateLimit config) = Inr rl"
    "validateRetrySettings (cfg_enableRetry config) (cfg_maxRetryAttempts config)
       (cfg_baseRetryDelay config) (cfg_maxRetryDelay config) = Inr rt"
    and c: "rateLimitManager c = new_RateLimitManager rl" "retryManager c = rt"
    using assms(1) by (auto simp: new_OpenAIClientService_def split: sum.splits)
  have "1 \<le> maxAttempts rt" using validateRetrySettings_Inr(1) [OF v(2)] .
  moreover have "case fst rl of None \<Rightarrow> True | Some n \<Rightarrow> 1 \<le> n"
    using v(1) by (auto simp: validateRateLimits_def split: option.splits if_splits prod.splits)
  ultimately show ?thesis
    using assms(2) c by (simp add: client_ready_def new_RateLimitManager_def)
qed

lemma scenarioA_first_state:
  "scenarioA_first = Some (Inr (buildPromptResponse completion_ok ''Hi there'' None),
                           scenarioA_after_first)"
  by (simp add: scenarioA_first_def scenarioA_client_def steady_script_def
      scenarioA_after_first_def run_defs)

lemmas run_defs_blocked =
  prompt_def executeWithRetry_def attempt_guard_def executeWithRateLimiting_def
  prompt_request_def throttle_def requestDelay_falsy_def canMakeRequest_def
  recordRequest_def isRequestRateLimitExceeded_def isTokenRateLimitExceeded_def
  estimateTokens_def parseAndValidateOutput_def buildPromptResponse_def
  plain_input_def completion_ok_def
  RATE_LIMIT_WINDOW_MS_def THROTTLE_CHECK_INTERVAL_MS_def CHARS_PER_TOKEN_def
  DEFAULT_ESTIMATED_MAX_TOKENS_def Let_def retry_loop.simps wait_blocked_61

section \<open>Request timestamps recorded by a call\<close>

text \<open>
  A successful call that needed a retry: the window was empty before the call and holds
  three request timestamps after it, two recorded before the two remote calls and one
  after the successful one.
\<close>

theorem C9_retried_call_counterexample:
  "requestTimestamps (rateLimitManager retried_client) = []
 \<and> outcome_status retried_call = Some SUCCESS
 \<and> outcome_requestTimestamps retried_call = Some [0, 1100, 1200]"
  by (simp add: retried_call_def retried_client_def retried_script_def error_503_def
      outcome_status_def outcome_requestTimestamps_def run_defs)

text \<open>
  Claim C9, amended.  On a ready client, a \<open>prompt\<close> call whose first attempt succeeds
  (the remote call returns and its content passes validation) returns the success
  response and appends exactly two entries to the request-timestamp sequence: the
  admission time \<open>t\<close>, recorded before the remote call, and \<open>t + latency\<close>, recorded after
  it, whatever usage the reply reports (also none).  Of the earlier entries those are
  left that were still inside the window at the admission check.
\<close>

theorem C9_first_attempt_success_appends_two:
  assumes ready: "client_ready inp c" and fuel: "61 \<le> fuel"
    and up: "upstream c (calls c) = Reply l (Inr resp)"
    and parse: "parseAndValidateOutput (message_content resp) (outputSchema inp) = Inr parsed"
  shows "\<exists>c' t. prompt fuel inp c
                  = Some (Inr (buildPromptResponse resp (fst parsed) (snd parsed)), c')
           \<and> clock c \<le> t
           \<and> requestTimestamps (rateLimitManager c')
               = filter (\<lambda>ts. ts > t - 60000) (requestTimestamps (rateLimitManager c))
                 @ [t, t + int l]"
proof -
  let ?fn = "\<lambda>c'. attempt_guard
                (executeWithRateLimiting fuel (prompt_request inp) (estimateTokens c' inp) c')"
  let ?h = "\<lambda>err. Inr (buildErrorResponse err) :: thrown + PromptResponse"
  let ?v = "buildPromptResponse resp (fst parsed) (snd parsed)"
  obtain c2 where ex: "executeWithRateLimiting fuel (prompt_request inp) (estimateTokens c inp) c
                         = Some (prompt_request inp c2)"
    and adv: "advances c c2" and k: "calls c2 = calls c"
    and ts: "requestTimestamps (rateLimitManager c2)
               = filter (\<lambda>ts. ts > clock c2 - 60000) (requestTimestamps (rateLimitManager c))
                 @ [clock c2]"
    using executeWithRateLimiting_returns [OF ready fuel] by blast
  have up2: "upstream c2 (calls c2) = Reply l (Inr resp)"
    using adv k up by (simp add: advances_def)
  let ?c3 = "snd (prompt_request inp c2)"
  have pr: "prompt_request inp c2 = (Inr ?v, ?c3)"
    and ts3: "requestTimestamps (rateLimitManager ?c3)
                = requestTimestamps (rateLimitManager c2) @ [clock c2 + int l]"
    using up2 parse by (simp_all add: prompt_request_def Let_def recordRequest_fields)
  have att: "?fn c = Some (Inr ?v, ?c3)"
    unfolding ex by (subst pr) (simp add: attempt_guard_Some)
  have m1: "0 < maxAttempts (retryManager c)"
    using ready by (simp add: client_ready_def)
  have "retry_loop (retryManager c) ?fn ?h 0 js_undefined c = Some (Inr ?v, ?c3)"
    using att m1 by (subst retry_loop.simps) simp
  then have "prompt fuel inp c = Some (Inr ?v, ?c3)"
    using att by (simp add: prompt_def executeWithRetry_def)
  moreover have "clock c \<le> clock c2" using adv by (simp add: advances_def)
  moreover have "requestTimestamps (rateLimitManager ?c3)
      = filter (\<lambda>ts. ts > clock c2 - 60000) (requestTimestamps (rateLimitManager c))
        @ [clock c2, clock c2 + int l]"
    unfolding ts3 ts by simp
  ultimately show ?thesis by blast
qed

theorem C9_first_attempt_success_appends_two_witness:
  "\<exists>c' t. prompt 61 plain_input scenarioA_after_first
            = Some (Inr (buildPromptResponse completion_ok ''Hi there'' None), c')
         \<and> 500 \<le> t
         \<and> requestTimestamps (rateLimitManager c')
             = filter (\<lambda>ts. ts > t - 60000) [0, 500] @ [t, t + 500]"
proof -
  have ready: "client_ready plain_input scenarioA_after_first"
    by (simp add: client_ready_def scenarioA_after_first_def scenarioA_client_def)
  have fuel: "(61::nat) \<le> 61" by simp
  have up: "upstream scenarioA_after_first (calls scenarioA_after_first)
              = Reply 500 (Inr completion_ok)"
    by (simp add: scenarioA_after_first_def scenarioA_client_def steady_script_def)
  have parse: "parseAndValidateOutput (message_content completion_ok) (outputSchema plain_input)
                 = Inr (''Hi there'', None)"
    by (simp add: parseAndValidateOutput_def completion_ok_def plain_input_def)
  show ?thesis
    using C9_first_attempt_success_appends_two [OF ready fuel up parse]
    by (simp add: scenarioA_after_first_def scenarioA_client_def)
qed

section \<open>Scenario A\<close>

text \<open>
  Claim C1, evaluated on the code.  With \<open>requestsPerMinute = 2\<close> the first call is
  admitted at once and leaves the two timestamps 0 and 500 in the window.  The second
  call, made as soon as the first is back, is not admitted: it sleeps through 60 polls of
  1000 ms and is served only when both timestamps have left the window, at clock 60500.
\<close>

theorem C1_second_call_waits:
  "new_OpenAIClientService scenarioA_config (quiet_world steady_script) = Inr scenarioA_client
 \<and> scenarioA_first
     = Some (Inr (buildPromptResponse completion_ok ''Hi there'' None), scenarioA_after_first)
 \<and> sleeps scenarioA_after_first = []
 \<and> outcome_status scenarioA_second = Some SUCCESS
 \<and> outcome_sleeps scenarioA_second = Some (replicate 60 1000)
 \<and> outcome_clock scenarioA_second = Some 61000
 \<and> outcome_requestTimestamps scenarioA_second = Some [60500, 61000]"
  unfolding scenarioA_second_def scenarioA_first_state scenarioA_client_constructed
  by (simp add: scenarioA_after_first_def scenarioA_client_def steady_script_def outcome_status_def
      outcome_sleeps_def outcome_clock_def outcome_requestTimestamps_def run_defs_blocked)

section \<open>Client errors that are retried\<close>

lemmas run_defs_classified =
  prompt_def executeWithRetry_def attempt_guard_def executeWithRateLimiting_def
  prompt_request_def throttle_def requestDelay_falsy_def canMakeRequest_def
  recordRequest_def isRequestRateLimitExceeded_def isTokenRateLimitExceeded_def
  estimateTokens_def new_ThrottleManager_def new_RateLimitManager_def plain_input_def
  RATE_LIMIT_WINDOW_MS_def THROTTLE_CHECK_INTERVAL_MS_def CHARS_PER_TOKEN_def
  DEFAULT_ESTIMATED_MAX_TOKENS_def sleep_def Math_random_def timer_delay_def
  calculateDelay_def Let_def waitForRateLimit_numeral retry_loop.simps

lemma context_length_error_marker: "has_marker ''500'' context_length_error"
  unfolding has_marker_def context_length_error_def message_of.simps
  by (rule exI [of _ "''400 This model's maximum context length is 8192 tokens. However, you requested 1''"],
      rule exI [of _ "''2 tokens (5002 in the messages, 10000 in the completion). Please reduce the length of the messages or completion.''"],
      simp)

lemma schema_range_error_marker: "has_marker ''500'' schema_range_error"
  unfolding has_marker_def schema_range_error_def message_of.simps
  by (rule exI [of _ "''OpenAI response does not match expected schema: : Number must be less than or equal to ''"],
      rule exI [of _ "[]"], simp)

text \<open>
  Claim C4, evaluated on the code.  \<open>isRetriableError\<close> looks for its markers anywhere in
  the message, so an error of a terminal kind whose message contains the digits 500 is
  classified retriable.  Two such errors: the service's 400 for a request of 15002 tokens,
  and the schema mismatch that \<open>parseAndValidateOutput\<close> throws for the content 900 against
  a maximum of 500.  The comment that closes \<open>isRetriableError\<close> lists both kinds under
  the errors not to retry.  A prompt that is answered with the 400 on every call is sent
  three times, with pauses of 1000 and 2000 ms in between.
\<close>

theorem C4_client_errors_are_retried:
  "getErrorCode context_length_error = Some (JNumber 400)
 \<and> isRetriableError context_length_error
 \<and> parseAndValidateOutput ''900'' (Some max_500_schema) = Inl schema_range_error
 \<and> isRetriableError schema_range_error
 \<and> outcome_calls (prompt 61 plain_input too_long_client) = Some 3
 \<and> outcome_sleeps (prompt 61 plain_input too_long_client) = Some [1000, 2000]"
proof -
  have r1: "isRetriableError context_length_error"
    using context_length_error_marker
    by (simp add: isRetriableError_by_kind retriable_kind_def upstream_5xx_def)
  have c1: "getErrorCode context_length_error = Some (JNumber 400)"
    by (simp add: context_length_error_def getErrorCode_def)
  have p2: "parseAndValidateOutput ''900'' (Some max_500_schema) = Inl schema_range_error"
    by (simp add: parseAndValidateOutput_def max_500_schema_def schema_range_error_def)
  have r2: "isRetriableError schema_range_error"
    using schema_range_error_marker
    by (simp add: isRetriableError_by_kind retriable_kind_def upstream_5xx_def)
  have run: "outcome_calls (prompt 61 plain_input too_long_client) = Some 3
     \<and> outcome_sleeps (prompt 61 plain_input too_long_client) = Some [1000, 2000]"
    by (simp add: too_long_client_def too_long_script_def default_client_def
        outcome_calls_def outcome_sleeps_def r1 run_defs_classified)
  from c1 r1 p2 r2 run show ?thesis by blast
qed

end
